theory Spec2Isabelle
  imports Complex_Main
begin

section \<open>Values of the request layer\<close>

text \<open>
  The backend (\<^verbatim>\<open>src/backend/server.js\<close>) handles JSON: request bodies, the parsed
  \<^verbatim>\<open>filters\<close> parameter, the documents of the collection. A value is one of the
  JavaScript values that can occur there. A number is kept as the text that
  \<^verbatim>\<open>String(n)\<close> gives for it (the shortest decimal form, which determines the number:
  \<^verbatim>\<open>0\<close> and \<^verbatim>\<open>-0\<close> both read \<^verbatim>\<open>0\<close>), since the handlers only convert such
  numbers to strings, test them for truthiness and compare them for equality. An
  \<^verbatim>\<open>ObjectId\<close> is kept as its 24 lower-case hexadecimal digits. An object lists its own
  enumerable properties in the order \<^verbatim>\<open>Object.values\<close> enumerates them.
\<close>

datatype val =
    VUndef
  | VNull
  | VBool bool
  | VNum string
  | VStr string
  | VOid string
  | VArr "val list"
  | VObj "(string \<times> val) list"

type_synonym obj = "(string \<times> val) list"

text \<open>Truthiness, as \<^verbatim>\<open>!x\<close> and \<^verbatim>\<open>x || y\<close> test it.\<close>

fun js_truthy :: "val \<Rightarrow> bool" where
  "js_truthy VUndef = False"
| "js_truthy VNull = False"
| "js_truthy (VBool b) = b"
| "js_truthy (VNum s) = (s \<noteq> ''0'' \<and> s \<noteq> ''NaN'')"
| "js_truthy (VStr s) = (s \<noteq> [])"
| "js_truthy (VOid h) = True"
| "js_truthy (VArr xs) = True"
| "js_truthy (VObj kvs) = True"

fun join_comma :: "string list \<Rightarrow> string" where
  "join_comma [] = []"
| "join_comma [s] = s"
| "join_comma (s # t # ss) = s @ '','' @ join_comma (t # ss)"

text \<open>
  \<^verbatim>\<open>String(x)\<close>, the template literal \<^verbatim>\<open>`${x}`\<close> and the conversion of a
  property key. An array joins the strings of its elements with commas, \<^verbatim>\<open>null\<close>
  and \<^verbatim>\<open>undefined\<close> elements giving the empty string. A plain object gives
  \<^verbatim>\<open>[object Object]\<close> through \<^verbatim>\<open>Object.prototype.toString\<close>; when the object
  has a property \<^verbatim>\<open>toString\<close> of its own (in parsed JSON, never a function), the
  conversion throws a \<^verbatim>\<open>TypeError\<close>: the result \<open>None\<close>.
\<close>

fun js_String :: "val \<Rightarrow> string option" where
  "js_String VUndef = Some ''undefined''"
| "js_String VNull = Some ''null''"
| "js_String (VBool b) = Some (if b then ''true'' else ''false'')"
| "js_String (VNum s) = Some s"
| "js_String (VStr s) = Some s"
| "js_String (VOid h) = Some h"
| "js_String (VArr xs) =
     map_option join_comma
       (those (map (\<lambda>x. if x = VUndef \<or> x = VNull then Some [] else js_String x) xs))"
| "js_String (VObj kvs) =
     (if ''toString'' \<in> fst ` set kvs then None else Some ''[object Object]'')"

text \<open>Property read \<^verbatim>\<open>o.k\<close> on an object: \<^verbatim>\<open>undefined\<close> when the property is absent.\<close>

definition get_prop :: "obj \<Rightarrow> string \<Rightarrow> val" where
  "get_prop ob k = (case map_of ob k of None \<Rightarrow> VUndef | Some v \<Rightarrow> v)"

text \<open>
  Property read on any value, as in \<^verbatim>\<open>filter.filterName\<close>: a \<^verbatim>\<open>TypeError\<close> on
  \<^verbatim>\<open>null\<close> and \<^verbatim>\<open>undefined\<close> (the result \<open>None\<close>); on a value that is not an object
  the names read here (\<^verbatim>\<open>filterName\<close>, \<^verbatim>\<open>filterValues\<close>) are not defined.
\<close>

fun read_prop :: "val \<Rightarrow> string \<Rightarrow> val option" where
  "read_prop VUndef k = None"
| "read_prop VNull k = None"
| "read_prop (VObj kvs) k = Some (get_prop kvs k)"
| "read_prop v k = Some VUndef"

text \<open>Replacing or appending an entry of an association list, keeping its place.\<close>

fun put :: "string \<Rightarrow> val \<Rightarrow> obj \<Rightarrow> obj" where
  "put k v [] = [(k, v)]"
| "put k v ((k', v') # kvs) = (if k' = k then (k, v) # kvs else (k', v') # put k v kvs)"

text \<open>
  Assignment \<^verbatim>\<open>o[k] = v\<close> of an object \<open>v\<close> to a plain object \<open>o\<close>. The key
  \<^verbatim>\<open>__proto__\<close> is the accessor of \<^verbatim>\<open>Object.prototype\<close>: assigning an object to it
  sets the prototype of \<open>o\<close> and creates no own property.
\<close>

definition set_prop :: "obj \<Rightarrow> string \<Rightarrow> val \<Rightarrow> obj" where
  "set_prop ob k v = (if k = ''__proto__'' then ob else put k v ob)"

text \<open>\<^verbatim>\<open>delete o.k\<close>\<close>

definition delete_prop :: "obj \<Rightarrow> string \<Rightarrow> obj" where
  "delete_prop ob k = filter (\<lambda>kv. fst kv \<noteq> k) ob"

text \<open>
  \<^verbatim>\<open>Object.values(x)\<close>: a \<^verbatim>\<open>TypeError\<close> on \<^verbatim>\<open>null\<close> and \<^verbatim>\<open>undefined\<close> (the
  result \<open>None\<close>), the elements of an array, the characters of a string, nothing for a
  number or a boolean.
\<close>

fun Object_values :: "val \<Rightarrow> val list option" where
  "Object_values VUndef = None"
| "Object_values VNull = None"
| "Object_values (VObj kvs) = Some (map snd kvs)"
| "Object_values (VArr xs) = Some xs"
| "Object_values (VStr s) = Some (map (\<lambda>c. VStr [c]) s)"
| "Object_values v = Some []"

subsection \<open>Numbers of the query string\<close>

text \<open>
  \<^verbatim>\<open>Number(req.query.limit)\<close> is a JavaScript number: \<^verbatim>\<open>NaN\<close>, an infinity or a
  finite value, which is a rational. The handlers compare such numbers and take minima.
\<close>

datatype jsnum = NaN | NegInf | Fin rat | PosInf

fun js_lt :: "jsnum \<Rightarrow> jsnum \<Rightarrow> bool" where
  "js_lt NaN b = False"
| "js_lt a NaN = False"
| "js_lt PosInf b = False"
| "js_lt a NegInf = False"
| "js_lt NegInf b = True"
| "js_lt a PosInf = True"
| "js_lt (Fin x) (Fin y) = (x < y)"

text \<open>\<^verbatim>\<open>a || d\<close> on numbers: \<open>d\<close> when \<open>a\<close> is \<^verbatim>\<open>NaN\<close> or zero.\<close>

definition or_default :: "jsnum \<Rightarrow> jsnum \<Rightarrow> jsnum" where
  "or_default a d = (if a = NaN \<or> a = Fin 0 then d else a)"

definition Math_min :: "jsnum \<Rightarrow> jsnum \<Rightarrow> jsnum" where
  "Math_min a b = (if a = NaN \<or> b = NaN then NaN else if js_lt b a then b else a)"

subsection \<open>Identifiers\<close>

text \<open>
  \<^verbatim>\<open>ObjectId.isValid\<close> and \<^verbatim>\<open>new ObjectId\<close> belong to the database driver, and
  the handlers call them on strings only. A string is a valid identifier when it
  consists of 24 hexadecimal digits, and the object made from it holds the twelve bytes
  they spell, so that upper and lower case digits give the same identifier.
\<close>

definition is_hex :: "char \<Rightarrow> bool" where
  "is_hex c = (c \<in> set ''0123456789abcdefABCDEF'')"

definition ObjectId_isValid :: "string \<Rightarrow> bool" where
  "ObjectId_isValid s = (length s = 24 \<and> list_all is_hex s)"

definition hex_lower :: "char \<Rightarrow> char" where
  "hex_lower c =
     (if c = CHR ''A'' then CHR ''a'' else if c = CHR ''B'' then CHR ''b''
      else if c = CHR ''C'' then CHR ''c'' else if c = CHR ''D'' then CHR ''d''
      else if c = CHR ''E'' then CHR ''e'' else if c = CHR ''F'' then CHR ''f'' else c)"

definition ObjectId :: "string \<Rightarrow> val" where
  "ObjectId s = VOid (map hex_lower s)"

section \<open>The document store and the media store\<close>

text \<open>
  The collection (\<^verbatim>\<open>collection\<close>, a MongoDB collection) and the media host
  (\<^verbatim>\<open>cloudinary.uploader\<close>) are the two collaborators of the handlers. They are not
  part of the repository; this section is a reference model of the operations the
  handlers call, on flat documents with top-level attribute names. Every call is
  recorded, so that "no store operation was performed" is a statement about the record.

  Which documents the driver can serialise and the server takes is not defined here: it
  is given with the store, as \<open>admits\<close> (the driver refuses, for one, an object with a
  string property \<^verbatim>\<open>_bsontype\<close> that is not one of its own types). A write of a
  document that is not admitted fails.
\<close>

datatype error = SyntaxError | TypeError | Error string | MongoError string

type_synonym buffer = "nat list"

datatype call =
    Find obj jsnum jsnum
  | InsertOne obj
  | UpdateOne obj obj
  | DeleteOne obj
  | UploadStream
  | StreamEnd buffer

record world =
  docs :: "obj list"
  text_index :: "(string \<Rightarrow> obj \<Rightarrow> bool) option"
  admits :: "obj \<Rightarrow> bool"
  calls :: "call list"
  uploads :: "(string \<times> buffer) list"

subsection \<open>Queries\<close>

text \<open>
  A query document is read entry by entry. \<^verbatim>\<open>{$text: {$search: s}}\<close> is a text
  search; \<^verbatim>\<open>{k: {$in: [..]}}\<close> is membership of the attribute \<open>k\<close>; any other entry
  is equality. An \<^verbatim>\<open>$in\<close> whose operand is not an array, and an unknown operator at
  the top level, are rejected by the store.
\<close>

datatype cond = CText string | CIn string "val list" | CEq string val

fun in_arg :: "val \<Rightarrow> val option" where
  "in_arg (VObj [(opn, a)]) = (if opn = ''$in'' then Some a else None)"
| "in_arg v = None"

fun search_arg :: "val \<Rightarrow> string option" where
  "search_arg (VObj [(opn, VStr s)]) = (if opn = ''$search'' then Some s else None)"
| "search_arg v = None"

definition read_cond :: "string \<times> val \<Rightarrow> error + cond" where
  "read_cond kc =
     (if fst kc = ''$text'' then
        (case search_arg (snd kc) of
           Some s \<Rightarrow> Inr (CText s)
         | None \<Rightarrow> Inl (MongoError ''$text needs $search''))
      else if fst kc \<noteq> [] \<and> hd (fst kc) = CHR ''$'' then
        Inl (MongoError ''unknown top level operator'')
      else
        (case in_arg (snd kc) of
           None \<Rightarrow> Inr (CEq (fst kc) (snd kc))
         | Some (VArr vs) \<Rightarrow> Inr (CIn (fst kc) vs)
         | Some a \<Rightarrow> Inl (MongoError ''$in needs an array'')))"

fun read_query :: "obj \<Rightarrow> error + cond list" where
  "read_query [] = Inr []"
| "read_query (kc # q) =
     (case read_cond kc of
        Inl e \<Rightarrow> Inl e
      | Inr c \<Rightarrow> (case read_query q of Inl e \<Rightarrow> Inl e | Inr cs \<Rightarrow> Inr (c # cs)))"

text \<open>
  Membership as the store decides it: the attribute's value is one of the permitted
  values; or the value is an array and one of its elements is; or the attribute is
  absent and \<^verbatim>\<open>null\<close> is permitted.
\<close>

definition in_match :: "val option \<Rightarrow> val list \<Rightarrow> bool" where
  "in_match fv vs =
     (case fv of
        None \<Rightarrow> VNull \<in> set vs
      | Some (VArr xs) \<Rightarrow> VArr xs \<in> set vs \<or> (\<exists>x \<in> set xs. x \<in> set vs)
      | Some v \<Rightarrow> v \<in> set vs)"

fun cond_holds :: "(string \<Rightarrow> obj \<Rightarrow> bool) \<Rightarrow> cond \<Rightarrow> obj \<Rightarrow> bool" where
  "cond_holds tm (CText s) d = tm s d"
| "cond_holds tm (CIn k vs) d = in_match (map_of d k) vs"
| "cond_holds tm (CEq k c) d = in_match (map_of d k) [c]"

fun is_text :: "cond \<Rightarrow> bool" where
  "is_text (CText s) = True"
| "is_text c = False"

text \<open>The documents a query selects; a text search needs the collection's text index.\<close>

definition selector :: "world \<Rightarrow> obj \<Rightarrow> error + (obj \<Rightarrow> bool)" where
  "selector w q =
     (case read_query q of
        Inl e \<Rightarrow> Inl e
      | Inr cs \<Rightarrow>
          (case text_index w of
             None \<Rightarrow>
               if list_ex is_text cs then Inl (MongoError ''text index required'')
               else Inr (\<lambda>d. list_all (\<lambda>c. cond_holds (\<lambda>s x. False) c d) cs)
           | Some tm \<Rightarrow> Inr (\<lambda>d. list_all (\<lambda>c. cond_holds tm c d) cs)))"

subsection \<open>Cursor: skip and limit\<close>

text \<open>
  \<^verbatim>\<open>skip\<close> takes a whole number that is not negative. \<^verbatim>\<open>limit\<close> takes a whole
  number: zero is no limit, and the driver sends a negative limit as its absolute value.
\<close>

definition is_whole :: "rat \<Rightarrow> bool" where
  "is_whole r = (of_int \<lfloor>r\<rfloor> = r)"

fun page :: "jsnum \<Rightarrow> jsnum \<Rightarrow> 'a list \<Rightarrow> error + 'a list" where
  "page (Fin s) (Fin l) xs =
     (if \<not> is_whole s \<or> s < 0 \<or> \<not> is_whole l then Inl (MongoError ''skip or limit'')
      else if l = 0 then Inr (drop (nat \<lfloor>s\<rfloor>) xs)
      else Inr (take (nat \<lfloor>\<bar>l\<bar>\<rfloor>) (drop (nat \<lfloor>s\<rfloor>) xs)))"
| "page s l xs = Inl (MongoError ''skip or limit'')"

text \<open>\<^verbatim>\<open>collection.find(q).skip(s).limit(l).toArray()\<close>\<close>

definition collection_find ::
  "world \<Rightarrow> obj \<Rightarrow> jsnum \<Rightarrow> jsnum \<Rightarrow> (error + obj list) \<times> world" where
  "collection_find w q s l =
     (case selector w q of
        Inl e \<Rightarrow> Inl e
      | Inr P \<Rightarrow> page s l (filter P (docs w)),
      w\<lparr>calls := calls w @ [Find q s l]\<rparr>)"

subsection \<open>Writes\<close>

text \<open>
  \<^verbatim>\<open>collection.insertOne(data)\<close>: the driver gives the document an identifier of its
  own making (\<open>g\<close>, the digits of the \<^verbatim>\<open>ObjectId\<close> it generates for this call) when
  \<^verbatim>\<open>data._id\<close> is \<^verbatim>\<open>null\<close> or \<^verbatim>\<open>undefined\<close>, and keeps \<^verbatim>\<open>data._id\<close>
  otherwise. The insertion fails when the document is not admitted, and the store
  refuses an array as identifier and an identifier that a stored document already has.
  The result is the identifier of the inserted document.
\<close>

fun is_array :: "val \<Rightarrow> bool" where
  "is_array (VArr xs) = True"
| "is_array v = False"

definition with_id :: "string \<Rightarrow> obj \<Rightarrow> obj" where
  "with_id g data =
     (if get_prop data ''_id'' = VUndef \<or> get_prop data ''_id'' = VNull
      then put ''_id'' (ObjectId g) data else data)"

definition ids :: "obj list \<Rightarrow> val list" where
  "ids ds = map (\<lambda>d. get_prop d ''_id'') ds"

definition collection_insertOne :: "world \<Rightarrow> string \<Rightarrow> obj \<Rightarrow> (error + val) \<times> world" where
  "collection_insertOne w g data =
     (if \<not> admits w (with_id g data) then
        (Inl (MongoError ''document not admitted''), w\<lparr>calls := calls w @ [InsertOne data]\<rparr>)
      else if is_array (get_prop (with_id g data) ''_id'') then
        (Inl (MongoError ''_id cannot be an array''), w\<lparr>calls := calls w @ [InsertOne data]\<rparr>)
      else if get_prop (with_id g data) ''_id'' \<in> set (ids (docs w)) then
        (Inl (MongoError ''E11000 duplicate key''), w\<lparr>calls := calls w @ [InsertOne data]\<rparr>)
      else
        (Inr (get_prop (with_id g data) ''_id''),
         w\<lparr>docs := docs w @ [with_id g data], calls := calls w @ [InsertOne data]\<rparr>))"

text \<open>
  \<^verbatim>\<open>collection.updateOne(q, {$set: flds})\<close>: the first document that \<open>q\<close> selects
  gets every attribute of \<open>flds\<close>, its other attributes stay. The update fails when
  \<open>flds\<close> is not admitted, and the store refuses an update that would change
  \<^verbatim>\<open>_id\<close>. The result is the number of documents matched.
\<close>

fun set_arg :: "obj \<Rightarrow> obj option" where
  "set_arg [(opn, VObj flds)] = (if opn = ''$set'' then Some flds else None)"
| "set_arg u = None"

fun update_first :: "('a \<Rightarrow> bool) \<Rightarrow> ('a \<Rightarrow> 'a) \<Rightarrow> 'a list \<Rightarrow> 'a list" where
  "update_first P f [] = []"
| "update_first P f (x # xs) = (if P x then f x # xs else x # update_first P f xs)"

definition apply_set :: "obj \<Rightarrow> obj \<Rightarrow> obj" where
  "apply_set flds d = foldr (\<lambda>kv x. put (fst kv) (snd kv) x) flds d"

definition changes_id :: "obj \<Rightarrow> obj \<Rightarrow> bool" where
  "changes_id flds d =
     (case map_of flds ''_id'' of None \<Rightarrow> False | Some v \<Rightarrow> map_of d ''_id'' \<noteq> Some v)"

definition collection_updateOne :: "world \<Rightarrow> obj \<Rightarrow> obj \<Rightarrow> (error + nat) \<times> world" where
  "collection_updateOne w q u =
     (case selector w q of
        Inl e \<Rightarrow> (Inl e, w\<lparr>calls := calls w @ [UpdateOne q u]\<rparr>)
      | Inr P \<Rightarrow>
          (case set_arg u of
             None \<Rightarrow>
               (Inl (MongoError ''unknown update''), w\<lparr>calls := calls w @ [UpdateOne q u]\<rparr>)
           | Some flds \<Rightarrow>
               if \<not> admits w flds then
                 (Inl (MongoError ''document not admitted''),
                  w\<lparr>calls := calls w @ [UpdateOne q u]\<rparr>)
               else
                 (case List.find P (docs w) of
                    None \<Rightarrow> (Inr 0, w\<lparr>calls := calls w @ [UpdateOne q u]\<rparr>)
                  | Some d \<Rightarrow>
                      if changes_id flds d then
                        (Inl (MongoError ''immutable field _id''),
                         w\<lparr>calls := calls w @ [UpdateOne q u]\<rparr>)
                      else
                        (Inr 1,
                         w\<lparr>docs := update_first P (apply_set flds) (docs w),
                           calls := calls w @ [UpdateOne q u]\<rparr>))))"

text \<open>
  \<^verbatim>\<open>collection.deleteOne(q)\<close> removes the first document that \<open>q\<close> selects. The result
  is the number of documents deleted.
\<close>

fun delete_first :: "('a \<Rightarrow> bool) \<Rightarrow> 'a list \<Rightarrow> 'a list" where
  "delete_first P [] = []"
| "delete_first P (x # xs) = (if P x then xs else x # delete_first P xs)"

definition collection_deleteOne :: "world \<Rightarrow> obj \<Rightarrow> (error + nat) \<times> world" where
  "collection_deleteOne w q =
     (case selector w q of
        Inl e \<Rightarrow> (Inl e, w\<lparr>calls := calls w @ [DeleteOne q]\<rparr>)
      | Inr P \<Rightarrow>
          (Inr (if list_ex P (docs w) then 1 else 0),
           w\<lparr>docs := delete_first P (docs w), calls := calls w @ [DeleteOne q]\<rparr>))"

section \<open>The methods of the backend\<close>

text \<open>
  \<^verbatim>\<open>getItems(pagination, limit, filters)\<close>. The argument \<open>filters\<close> is \<open>None\<close> when
  \<^verbatim>\<open>filters\<close> is falsy (absent, or the empty string); otherwise it is what
  \<^verbatim>\<open>JSON.parse(filters)\<close> does: it throws, or it gives a value. The loop over
  \<^verbatim>\<open>Object.values(filtersObject)\<close> assigns
  \<^verbatim>\<open>preparedFilters[filter.filterName] = { $in: filter.filterValues }\<close> for each
  filter in turn; the property key is the string of \<^verbatim>\<open>filter.filterName\<close>.
  The routes call the methods with numbers for \<^verbatim>\<open>pagination\<close> and \<^verbatim>\<open>limit\<close>, so
  that \<^verbatim>\<open>Number(pagination)\<close> and \<^verbatim>\<open>Number(limit)\<close> are these numbers and the
  default value of \<^verbatim>\<open>limit\<close> is not used.
\<close>

datatype parsed = Throws | Parsed val

fun prepare :: "val list \<Rightarrow> obj \<Rightarrow> obj option" where
  "prepare [] preparedFilters = Some preparedFilters"
| "prepare (f # fs) preparedFilters =
     (case read_prop f ''filterName'' of
        None \<Rightarrow> None
      | Some n \<Rightarrow>
          (case read_prop f ''filterValues'' of
             None \<Rightarrow> None
           | Some vs \<Rightarrow>
               (case js_String n of
                  None \<Rightarrow> None
                | Some k \<Rightarrow> prepare fs (set_prop preparedFilters k (VObj [(''$in'', vs)])))))"

definition prepareFilters :: "parsed option \<Rightarrow> error + obj" where
  "prepareFilters filters =
     (case filters of
        None \<Rightarrow> Inr []
      | Some Throws \<Rightarrow> Inl SyntaxError
      | Some (Parsed filtersObject) \<Rightarrow>
          (case Object_values filtersObject of
             None \<Rightarrow> Inl TypeError
           | Some fs \<Rightarrow>
               (case prepare fs [] of None \<Rightarrow> Inl TypeError | Some pf \<Rightarrow> Inr pf)))"

definition getItems ::
  "world \<Rightarrow> jsnum \<Rightarrow> jsnum \<Rightarrow> parsed option \<Rightarrow> (error + obj list \<times> bool) \<times> world" where
  "getItems w pagination limit filters =
     (case prepareFilters filters of
        Inl e \<Rightarrow> (Inl e, w)
      | Inr preparedFilters \<Rightarrow>
          (case collection_find w preparedFilters pagination limit of
             (Inl e, w') \<Rightarrow> (Inl e, w')
           | (Inr items, w') \<Rightarrow>
               (Inr (items, js_lt (Fin (of_nat (length items))) limit), w')))"

text \<open>\<^verbatim>\<open>getItemsByName(pagination, limit, search)\<close>\<close>

definition getItemsByName ::
  "world \<Rightarrow> jsnum \<Rightarrow> jsnum \<Rightarrow> string \<Rightarrow> (error + obj list \<times> bool) \<times> world" where
  "getItemsByName w pagination limit search =
     (case collection_find w [(''$text'', VObj [(''$search'', VStr search)])] pagination limit of
        (Inl e, w') \<Rightarrow> (Inl e, w')
      | (Inr items, w') \<Rightarrow>
          (Inr (items, js_lt (Fin (of_nat (length items))) limit), w'))"

text \<open>\<^verbatim>\<open>add(data)\<close>; \<open>g\<close> is the identifier the driver generates during this call.\<close>

definition add :: "world \<Rightarrow> string \<Rightarrow> obj \<Rightarrow> (error + val) \<times> world" where
  "add w g data = collection_insertOne w g data"

text \<open>\<^verbatim>\<open>edit(data)\<close>\<close>

definition edit :: "world \<Rightarrow> obj \<Rightarrow> (error + unit) \<times> world" where
  "edit w data =
     (case js_String (get_prop data ''_id'') of
        None \<Rightarrow> (Inl TypeError, w)
      | Some s \<Rightarrow>
          if \<not> ObjectId_isValid s then (Inl (Error ''Invalid id''), w)
          else
            (case collection_updateOne w [(''_id'', ObjectId s)]
                    [(''$set'', VObj (delete_prop data ''_id''))] of
               (Inl e, w') \<Rightarrow> (Inl e, w')
             | (Inr n, w') \<Rightarrow> (Inr (), w')))"

text \<open>\<^verbatim>\<open>remove(data)\<close>\<close>

definition remove :: "world \<Rightarrow> obj \<Rightarrow> (error + nat) \<times> world" where
  "remove w data =
     (case js_String (get_prop data ''id'') of
        None \<Rightarrow> (Inl TypeError, w)
      | Some s \<Rightarrow>
          if \<not> ObjectId_isValid s then (Inl (Error ''Invalid id''), w)
          else collection_deleteOne w [(''_id'', ObjectId s)])"

section \<open>The end points\<close>

text \<open>
  A response is its status and its JSON body; \<^verbatim>\<open>res.json\<close> alone answers 200. The
  numbers of the query string arrive as \<^verbatim>\<open>Number(req.query.pagination)\<close> and
  \<^verbatim>\<open>Number(req.query.limit)\<close>; the body is \<open>None\<close> when \<^verbatim>\<open>req.body\<close> is undefined.
\<close>

datatype body =
    JError string
  | JFailure string error
  | JItems "obj list" bool
  | JInserted val
  | JDeleted nat
  | JMessage string
  | JUploaded string string

datatype response = Response (status: nat) (body: body)

text \<open>\<^verbatim>\<open>GET /api/get-items\<close>\<close>

definition get_items_limit :: "jsnum \<Rightarrow> jsnum" where
  "get_items_limit l = Math_min (or_default l (Fin 10)) (Fin 100)"

definition get_items_route ::
  "world \<Rightarrow> jsnum \<Rightarrow> jsnum \<Rightarrow> parsed option \<Rightarrow> response \<times> world" where
  "get_items_route w p l filters =
     (case getItems w (or_default p (Fin 0)) (get_items_limit l) filters of
        (Inl e, w') \<Rightarrow> (Response 500 (JError ''Server error''), w')
      | (Inr (items, isEndOfCollection), w') \<Rightarrow>
          (Response 200 (JItems items isEndOfCollection), w'))"

text \<open>\<^verbatim>\<open>GET /api/search\<close>; \<open>s\<close> is \<^verbatim>\<open>req.query.search\<close>.\<close>

definition search_limit :: "jsnum \<Rightarrow> jsnum" where
  "search_limit l = Math_min (or_default l (Fin 10)) (Fin 20)"

definition search_string :: "val \<Rightarrow> string option" where
  "search_string s = js_String (if js_truthy s then s else VStr [])"

definition search_route :: "world \<Rightarrow> jsnum \<Rightarrow> jsnum \<Rightarrow> val \<Rightarrow> response \<times> world" where
  "search_route w p l s =
     (case search_string s of
        None \<Rightarrow> (Response 500 (JError ''Server error''), w)
      | Some search \<Rightarrow>
          if search = [] then (Response 400 (JError ''Missing search parameter''), w)
          else
            (case getItemsByName w (or_default p (Fin 0)) (search_limit l) search of
               (Inl e, w') \<Rightarrow> (Response 500 (JError ''Server error''), w')
             | (Inr (items, isEndOfCollection), w') \<Rightarrow>
                 (Response 200 (JItems items isEndOfCollection), w')))"

text \<open>\<^verbatim>\<open>POST /api/add\<close>\<close>

definition add_route :: "world \<Rightarrow> string \<Rightarrow> obj option \<Rightarrow> response \<times> world" where
  "add_route w g b =
     (case b of
        None \<Rightarrow> (Response 400 (JError ''Missing body''), w)
      | Some data \<Rightarrow>
          if length (map fst data) = 0 then (Response 400 (JError ''Missing body''), w)
          else
            (case add w g data of
               (Inl e, w') \<Rightarrow> (Response 500 (JError ''Server error''), w')
             | (Inr r, w') \<Rightarrow> (Response 201 (JInserted r), w')))"

text \<open>
  \<^verbatim>\<open>POST /api/upload-image\<close>; \<open>file\<close> is \<^verbatim>\<open>req.file\<close>, undefined when the request
  has no \<^verbatim>\<open>image\<close> field, and \<open>outcome\<close> is what the media host calls back with once
  the stream has ended: an error, or the URL and public identifier of the asset. The
  stream is opened by \<^verbatim>\<open>upload_stream\<close> before \<^verbatim>\<open>req.file.buffer\<close> is read.
\<close>

definition upload_image_route ::
  "world \<Rightarrow> buffer option \<Rightarrow> error + string \<times> string \<Rightarrow> response \<times> world" where
  "upload_image_route w file outcome =
     (case file of
        None \<Rightarrow>
          (Response 500 (JFailure ''Image upload failed'' TypeError),
           w\<lparr>calls := calls w @ [UploadStream]\<rparr>)
      | Some buf \<Rightarrow>
          (case outcome of
             Inl e \<Rightarrow>
               (Response 500 (JFailure ''Image upload failed'' e),
                w\<lparr>calls := calls w @ [UploadStream, StreamEnd buf]\<rparr>)
           | Inr (url, public_id) \<Rightarrow>
               (Response 200 (JUploaded url public_id),
                w\<lparr>calls := calls w @ [UploadStream, StreamEnd buf],
                  uploads := uploads w @ [(public_id, buf)]\<rparr>)))"

text \<open>\<^verbatim>\<open>PUT /api/edit\<close>\<close>

definition edit_route :: "world \<Rightarrow> obj option \<Rightarrow> response \<times> world" where
  "edit_route w b =
     (case b of
        None \<Rightarrow> (Response 400 (JError ''Missing id in body''), w)
      | Some data \<Rightarrow>
          if \<not> js_truthy (get_prop data ''_id'') then
            (Response 400 (JError ''Missing id in body''), w)
          else
            (case edit w data of
               (Inl e, w') \<Rightarrow> (Response 500 (JError ''Server error''), w')
             | (Inr u, w') \<Rightarrow> (Response 200 (JMessage ''Item updated successfully''), w')))"

text \<open>\<^verbatim>\<open>DELETE /api/delete\<close>\<close>

definition delete_route :: "world \<Rightarrow> obj option \<Rightarrow> response \<times> world" where
  "delete_route w b =
     (case b of
        None \<Rightarrow> (Response 400 (JError ''Missing id in body''), w)
      | Some data \<Rightarrow>
          if \<not> js_truthy (get_prop data ''id'') then
            (Response 400 (JError ''Missing id in body''), w)
          else
            (case remove w data of
               (Inl e, w') \<Rightarrow> (Response 500 (JError ''Internal server error''), w')
             | (Inr n, w') \<Rightarrow> (Response 200 (JDeleted n), w')))"

section \<open>Well-formed stores and example data\<close>

text \<open>
  The store keeps identifiers unique and never holds an array as identifier (both are
  enforced by \<open>collection_insertOne\<close> and kept by the other operations).
\<close>

definition wf_store :: "world \<Rightarrow> bool" where
  "wf_store w =
     (distinct (ids (docs w)) \<and> list_all (\<lambda>d. \<not> is_array (get_prop d ''_id'')) (docs w))"


text \<open>
  A small collection, used to run the operations on concrete requests. Its driver
  refuses a document that has a property \<^verbatim>\<open>_bsontype\<close> and takes the others.
\<close>

definition plain_document :: "obj \<Rightarrow> bool" where
  "plain_document d = (map_of d ''_bsontype'' = None)"

definition mojito :: obj where
  "mojito =
     [(''_id'', VOid ''65a000000000000000000001''), (''name'', VStr ''Mojito''),
      (''base'', VStr ''rum'')]"

definition negroni :: obj where
  "negroni =
     [(''_id'', VOid ''65a000000000000000000002''), (''name'', VStr ''Negroni''),
      (''base'', VStr ''gin'')]"

definition by_name :: "string \<Rightarrow> obj \<Rightarrow> bool" where
  "by_name s d = (get_prop d ''name'' = VStr s)"

definition bar :: world where
  "bar =
     \<lparr>docs = [mojito, negroni], text_index = Some by_name, admits = plain_document,
      calls = [], uploads = []\<rparr>"

definition closed_bar :: world where
  "closed_bar =
     \<lparr>docs = [], text_index = None, admits = plain_document, calls = [], uploads = []\<rparr>"

definition house_mojito :: obj where
  "house_mojito = [(''_id'', VStr ''house''), (''name'', VStr ''Mojito'')]"


section \<open>End of collection\<close>

lemma getItems_flag:
  "getItems w p l f = (Inr (items, flag), w') \<Longrightarrow>
     flag = js_lt (Fin (of_nat (length items))) l"
  by (auto simp: getItems_def split: sum.splits prod.splits)

lemma getItemsByName_flag:
  "getItemsByName w p l s = (Inr (items, flag), w') \<Longrightarrow>
     flag = js_lt (Fin (of_nat (length items))) l"
  by (auto simp: getItemsByName_def split: sum.splits prod.splits)

lemma get_items_route_flag:
  "get_items_route w p l f = (Response 200 (JItems items flag), w') \<Longrightarrow>
     flag = js_lt (Fin (of_nat (length items))) (get_items_limit l)"
  by (auto simp: get_items_route_def dest: getItems_flag split: sum.splits prod.splits)

lemma search_route_flag:
  "search_route w p l s = (Response 200 (JItems items flag), w') \<Longrightarrow>
     flag = js_lt (Fin (of_nat (length items))) (search_limit l)"
  by (auto simp: search_route_def dest: getItemsByName_flag
      split: option.splits sum.splits prod.splits if_splits)

lemma is_whole_numeral [simp]: "is_whole 0" "is_whole 1" "is_whole (numeral n)"
  by (simp_all add: is_whole_def)

lemma bar_second_page:
  "getItems bar (Fin 1) (Fin 1) None =
     (Inr ([negroni], False), bar\<lparr>calls := [Find [] (Fin 1) (Fin 1)]\<rparr>)"
  by (simp add: getItems_def prepareFilters_def collection_find_def selector_def bar_def)

lemma bar_search_negroni:
  "getItemsByName bar (Fin 0) (Fin 10) ''Negroni'' =
     (Inr ([negroni], True),
      bar\<lparr>calls := [Find [(''$text'', VObj [(''$search'', VStr ''Negroni'')])] (Fin 0) (Fin 10)]\<rparr>)"
  by (simp add: getItemsByName_def collection_find_def selector_def read_cond_def bar_def
      by_name_def get_prop_def mojito_def negroni_def)

text \<open>
  C1: whenever \<^verbatim>\<open>getItems\<close> (behind \<^verbatim>\<open>GET /api/get-items\<close>) or
  \<^verbatim>\<open>getItemsByName\<close> (behind \<^verbatim>\<open>GET /api/search\<close>) succeeds, the flag
  \<^verbatim>\<open>isEndOfCollection\<close> it returns is true exactly when the number of items returned
  is strictly less than the limit it was called with. At the end points that limit is
  the one the route passes on.
\<close>

theorem isEndOfCollection_iff_fewer_than_limit:
  "(getItems w p l f = (Inr (items, flag), w') \<longrightarrow>
      (flag \<longleftrightarrow> js_lt (Fin (of_nat (length items))) l)) \<and>
   (getItemsByName w p l s = (Inr (items, flag), w') \<longrightarrow>
      (flag \<longleftrightarrow> js_lt (Fin (of_nat (length items))) l)) \<and>
   (get_items_route w p l f = (Response 200 (JItems items flag), w') \<longrightarrow>
      (flag \<longleftrightarrow> js_lt (Fin (of_nat (length items))) (get_items_limit l))) \<and>
   (search_route w p l v = (Response 200 (JItems items flag), w') \<longrightarrow>
      (flag \<longleftrightarrow> js_lt (Fin (of_nat (length items))) (search_limit l)))"
  by (intro conjI impI)
    (erule getItems_flag getItemsByName_flag get_items_route_flag search_route_flag)+

lemma bar_second_page_route:
  "get_items_route bar (Fin 1) (Fin 1) None =
     (Response 200 (JItems [negroni] False), bar\<lparr>calls := [Find [] (Fin 1) (Fin 1)]\<rparr>)"
  by (simp add: get_items_route_def bar_second_page get_items_limit_def or_default_def
      Math_min_def)

lemma bar_search_negroni_route:
  "search_route bar (Fin 0) (Fin 10) (VStr ''Negroni'') =
     (Response 200 (JItems [negroni] True),
      bar\<lparr>calls := [Find [(''$text'', VObj [(''$search'', VStr ''Negroni'')])] (Fin 0) (Fin 10)]\<rparr>)"
  by (simp add: search_route_def search_string_def bar_search_negroni search_limit_def
      or_default_def Math_min_def)

theorem isEndOfCollection_iff_fewer_than_limit_witness:
  "fst (getItems bar (Fin 1) (Fin 1) None) = Inr ([negroni], False) \<and>
   (False \<longleftrightarrow> js_lt (Fin (of_nat (length [negroni]))) (Fin 1)) \<and>
   fst (getItemsByName bar (Fin 0) (Fin 10) ''Negroni'') = Inr ([negroni], True) \<and>
   (True \<longleftrightarrow> js_lt (Fin (of_nat (length [negroni]))) (Fin 10)) \<and>
   fst (get_items_route bar (Fin 1) (Fin 1) None) = Response 200 (JItems [negroni] False) \<and>
   (False \<longleftrightarrow> js_lt (Fin (of_nat (length [negroni]))) (get_items_limit (Fin 1))) \<and>
   fst (search_route bar (Fin 0) (Fin 10) (VStr ''Negroni'')) =
     Response 200 (JItems [negroni] True) \<and>
   (True \<longleftrightarrow> js_lt (Fin (of_nat (length [negroni]))) (search_limit (Fin 10)))"
proof -
  note t = isEndOfCollection_iff_fewer_than_limit
  have a: "False \<longleftrightarrow> js_lt (Fin (of_nat (length [negroni]))) (Fin 1)"
    using t [THEN conjunct1, rule_format, OF bar_second_page] .
  have b: "True \<longleftrightarrow> js_lt (Fin (of_nat (length [negroni]))) (Fin 10)"
    using t [THEN conjunct2, THEN conjunct1, rule_format, OF bar_search_negroni] .
  have c: "False \<longleftrightarrow> js_lt (Fin (of_nat (length [negroni]))) (get_items_limit (Fin 1))"
    using t [THEN conjunct2, THEN conjunct2, THEN conjunct1, rule_format,
        OF bar_second_page_route] .
  have d: "True \<longleftrightarrow> js_lt (Fin (of_nat (length [negroni]))) (search_limit (Fin 10))"
    using t [THEN conjunct2, THEN conjunct2, THEN conjunct2, rule_format,
        OF bar_search_negroni_route] .
  show ?thesis
    using a b c d
    by (simp only: bar_second_page bar_search_negroni bar_second_page_route
        bar_search_negroni_route fst_conv simp_thms)
qed

section \<open>Limits\<close>

lemma get_items_limit_bound:
  "get_items_limit l \<noteq> NaN \<and> \<not> js_lt (Fin 100) (get_items_limit l)"
  by (cases l) (auto simp: get_items_limit_def Math_min_def or_default_def)

lemma search_limit_bound:
  "search_limit l \<noteq> NaN \<and> \<not> js_lt (Fin 20) (search_limit l)"
  by (cases l) (auto simp: search_limit_def Math_min_def or_default_def)

lemma getItems_calls:
  "calls (snd (getItems w p l f)) = calls w \<or>
   (\<exists>q. calls (snd (getItems w p l f)) = calls w @ [Find q p l])"
  by (auto simp: getItems_def collection_find_def split: sum.splits prod.splits)

lemma getItemsByName_calls:
  "calls (snd (getItemsByName w p l s)) =
     calls w @ [Find [(''$text'', VObj [(''$search'', VStr s)])] p l]"
  by (auto simp: getItemsByName_def collection_find_def split: sum.splits prod.splits)

lemma get_items_route_calls:
  "calls (snd (get_items_route w p l f)) = calls w \<or>
   (\<exists>q. calls (snd (get_items_route w p l f)) =
      calls w @ [Find q (or_default p (Fin 0)) (get_items_limit l)])"
  using getItems_calls [of w "or_default p (Fin 0)" "get_items_limit l" f]
  by (auto simp: get_items_route_def split: sum.splits prod.splits)

lemma search_route_calls:
  "calls (snd (search_route w p l s)) = calls w \<or>
   (\<exists>x. search_string s = Some x \<and> x \<noteq> [] \<and> calls (snd (search_route w p l s)) =
      calls w @ [Find [(''$text'', VObj [(''$search'', VStr x)])]
                   (or_default p (Fin 0)) (search_limit l)])"
proof (cases "search_string s")
  case None
  then show ?thesis by (simp add: search_route_def)
next
  case (Some x)
  with getItemsByName_calls [of w "or_default p (Fin 0)" "search_limit l" x]
  show ?thesis by (auto simp: search_route_def split: sum.splits prod.splits)
qed

lemma is_whole_minus [simp]: "is_whole (- numeral n)"
  by (simp add: is_whole_def)

lemma selector_all: "\<exists>P. selector w [] = Inr P \<and> (\<forall>d. P d)"
  by (simp add: selector_def split: option.split)

lemma page_negative: "page (Fin 0) (Fin (- numeral n)) xs = Inr (take (numeral n) xs)"
  by simp

lemma find_all_negative_limit:
  "collection_find w [] (Fin 0) (Fin (- 101)) =
     (Inr (take 101 (docs w)), w\<lparr>calls := calls w @ [Find [] (Fin 0) (Fin (- 101))]\<rparr>)"
proof -
  from selector_all [of w] obtain P where P: "selector w [] = Inr P" and all: "\<forall>d. P d"
    by blast
  from all have "filter P (docs w) = docs w" by simp
  with P show ?thesis by (simp only: collection_find_def sum.case page_negative)
qed

lemma search_route_world:
  "search_string s = Some x \<Longrightarrow> x \<noteq> [] \<Longrightarrow>
     snd (search_route w p l s) = snd (getItemsByName w (or_default p (Fin 0)) (search_limit l) x)"
  by (auto simp: search_route_def split: prod.splits sum.splits)


lemma never_below_negative: "js_lt (Fin (of_nat k)) (Fin (- numeral n)) = False"
proof -
  have "(0::rat) \<le> of_nat k" by simp
  moreover have "(- numeral n :: rat) < 0" by simp
  ultimately have "\<not> (of_nat k :: rat) < - numeral n" by linarith
  then show ?thesis by simp
qed

lemma getItems_negative_limit:
  "getItems w (Fin 0) (Fin (- 101)) None =
     (Inr (take 101 (docs w), False), w\<lparr>calls := calls w @ [Find [] (Fin 0) (Fin (- 101))]\<rparr>)"
  by (simp only: getItems_def prepareFilters_def option.case sum.case prod.case
      find_all_negative_limit never_below_negative)

lemma limits_negative:
  "get_items_limit (Fin (- 101)) = Fin (- 101)" "search_limit (Fin (- 21)) = Fin (- 21)"
  "or_default (Fin 0) (Fin 0) = Fin 0"
  by (simp_all add: get_items_limit_def search_limit_def Math_min_def or_default_def)

lemma get_items_negative_limit:
  "get_items_route w (Fin 0) (Fin (- 101)) None =
     (Response 200 (JItems (take 101 (docs w)) False),
      w\<lparr>calls := calls w @ [Find [] (Fin 0) (Fin (- 101))]\<rparr>)"
  by (simp only: get_items_route_def limits_negative getItems_negative_limit prod.case sum.case)

text \<open>
  C9: the cap on the limit misses the negative values. \<^verbatim>\<open>Math.min(Number(limit) || 10, 100)\<close>
  leaves the limit -101 of a query string as it is; \<^verbatim>\<open>GET /api/get-items\<close> passes it to
  the store, and the store, which reads a negative limit as its absolute value, returns
  up to 101 items. In the same way \<^verbatim>\<open>GET /api/search\<close> passes the limit -21 on, for
  which the store returns up to 21 items. The limit in effect exceeds 100 and 20.
\<close>

theorem negative_limit_passes_the_cap:
  "get_items_limit (Fin (- 101)) = Fin (- 101) \<and>
   fst (get_items_route w (Fin 0) (Fin (- 101)) None) =
     Response 200 (JItems (take 101 (docs w)) False) \<and>
   calls (snd (get_items_route w (Fin 0) (Fin (- 101)) None)) =
     calls w @ [Find [] (Fin 0) (Fin (- 101))] \<and>
   search_limit (Fin (- 21)) = Fin (- 21) \<and>
   calls (snd (search_route w (Fin 0) (Fin (- 21)) (VStr ''rum''))) =
     calls w @ [Find [(''$text'', VObj [(''$search'', VStr ''rum'')])] (Fin 0) (Fin (- 21))] \<and>
   page (Fin 0) (Fin (- 21)) xs = Inr (take 21 xs)"
proof -
  have b: "search_string (VStr ''rum'') = Some ''rum''" "''rum'' \<noteq> []"
    by (simp_all add: search_string_def)
  have c: "calls (snd (search_route w (Fin 0) (Fin (- 21)) (VStr ''rum''))) =
     calls w @ [Find [(''$text'', VObj [(''$search'', VStr ''rum'')])] (Fin 0) (Fin (- 21))]"
    by (simp only: search_route_world [OF b] limits_negative getItemsByName_calls)
  have d: "page (Fin 0) (Fin (- 21)) xs = Inr (take 21 xs)"
    by (rule page_negative)
  have e: "calls (snd (get_items_route w (Fin 0) (Fin (- 101)) None)) =
     calls w @ [Find [] (Fin 0) (Fin (- 101))]"
    by (simp add: get_items_negative_limit)
  have f: "fst (get_items_route w (Fin 0) (Fin (- 101)) None) =
     Response 200 (JItems (take 101 (docs w)) False)"
    by (simp only: get_items_negative_limit fst_conv)
  from limits_negative(1) f e limits_negative(2) c d show ?thesis by (intro conjI)
qed

theorem negative_limit_passes_the_cap_witness:
  "fst (get_items_route bar (Fin 0) (Fin (- 101)) None) =
     Response 200 (JItems [mojito, negroni] False) \<and>
   calls (snd (get_items_route bar (Fin 0) (Fin (- 101)) None)) =
     [Find [] (Fin 0) (Fin (- 101))] \<and>
   page (Fin 0) (Fin (- 21)) [mojito, negroni] = Inr [mojito, negroni]"
proof -
  note t = negative_limit_passes_the_cap [of bar "[mojito, negroni]"]
  note c2 = conjunct2
  have d: "take 101 (docs bar) = [mojito, negroni]"
    by (simp add: bar_def)
  have e: "calls bar = []"
    by (simp add: bar_def)
  have f: "take 21 [mojito, negroni] = [mojito, negroni]"
    by simp
  note i = t [THEN c2, THEN conjunct1, unfolded d]
  note j = t [THEN c2, THEN c2, THEN conjunct1, unfolded e append_Nil]
  note k = t [THEN c2, THEN c2, THEN c2, THEN c2, THEN c2, unfolded f]
  from i j k show ?thesis by (intro conjI)
qed

section \<open>Search\<close>

lemma search_string_empty:
  "search_string VUndef = Some [] \<and> search_string (VStr []) = Some []"
  by (simp add: search_string_def)

text \<open>
  C8: a search request whose \<^verbatim>\<open>search\<close> parameter is missing or empty is answered
  400 and leaves the store as it was, with no call made; and whatever the request, the
  store is never asked to search for the empty string.
\<close>

theorem search_needs_query:
  "(search_string s = Some [] \<longrightarrow>
      search_route w p l s = (Response 400 (JError ''Missing search parameter''), w)) \<and>
   search_string VUndef = Some [] \<and> search_string (VStr []) = Some [] \<and>
   (calls (snd (search_route w p l s)) = calls w \<or>
    (\<exists>x. search_string s = Some x \<and> x \<noteq> [] \<and> calls (snd (search_route w p l s)) =
      calls w @ [Find [(''$text'', VObj [(''$search'', VStr x)])]
                   (or_default p (Fin 0)) (search_limit l)]))"
  using search_route_calls [of w p l s] search_string_empty
  by (simp add: search_route_def)

theorem search_needs_query_witness:
  "search_string (VStr []) = Some [] \<and>
   search_route bar (Fin 0) (Fin 10) (VStr []) =
     (Response 400 (JError ''Missing search parameter''), bar)"
proof -
  note t = search_needs_query [of "VStr []" bar "Fin 0" "Fin 10"]
  have e: "search_string (VStr []) = Some []"
    using t by (elim conjE)
  from t [THEN conjunct1, rule_format, OF e] e show ?thesis by (intro conjI)
qed

section \<open>Image upload\<close>

text \<open>
  C10: \<^verbatim>\<open>POST /api/upload-image\<close> without the \<^verbatim>\<open>image\<close> field is answered 500,
  not 400: reading \<^verbatim>\<open>req.file.buffer\<close> throws inside the \<^verbatim>\<open>try\<close> block, after the
  upload stream was opened and before anything is written to it, so that no upload
  completes.
\<close>

theorem upload_without_file:
  "upload_image_route w None outcome =
     (Response 500 (JFailure ''Image upload failed'' TypeError),
      w\<lparr>calls := calls w @ [UploadStream]\<rparr>) \<and>
   status (fst (upload_image_route w None outcome)) = 500 \<and>
   status (fst (upload_image_route w None outcome)) \<noteq> 400 \<and>
   uploads (snd (upload_image_route w None outcome)) = uploads w \<and>
   docs (snd (upload_image_route w None outcome)) = docs w \<and>
   StreamEnd b \<notin> set (calls (snd (upload_image_route w None outcome))) - set (calls w)"
  by (simp add: upload_image_route_def)

theorem upload_without_file_witness:
  "status (fst (upload_image_route closed_bar None (Inr (''u'', ''p'')))) = 500 \<and>
   uploads (snd (upload_image_route closed_bar None (Inr (''u'', ''p'')))) = []"
proof -
  note t = upload_without_file [of closed_bar "Inr (''u'', ''p'')" "[]"]
  have "uploads closed_bar = []" by (simp add: closed_bar_def)
  with t show ?thesis by (elim conjE) (simp only: simp_thms)
qed

section \<open>Malformed and missing identifiers\<close>

lemma edit_invalid:
  "js_String (get_prop data ''_id'') = Some s \<Longrightarrow> \<not> ObjectId_isValid s \<Longrightarrow>
     edit w data = (Inl (Error ''Invalid id''), w)"
  by (simp add: edit_def)

lemma edit_no_string:
  "js_String (get_prop data ''_id'') = None \<Longrightarrow> edit w data = (Inl TypeError, w)"
  by (simp add: edit_def)

lemma remove_invalid:
  "js_String (get_prop data ''id'') = Some s \<Longrightarrow> \<not> ObjectId_isValid s \<Longrightarrow>
     remove w data = (Inl (Error ''Invalid id''), w)"
  by (simp add: remove_def)

lemma remove_no_string:
  "js_String (get_prop data ''id'') = None \<Longrightarrow> remove w data = (Inl TypeError, w)"
  by (simp add: remove_def)

lemma get_prop_absent: "map_of ob k = None \<Longrightarrow> get_prop ob k = VUndef"
  by (simp add: get_prop_def)

lemma falsy_cases:
  "(\<not> js_truthy v) =
     (v = VUndef \<or> v = VNull \<or> v = VBool False \<or> v = VNum ''0'' \<or> v = VNum ''NaN'' \<or>
      v = VStr [])"
  by (cases v) auto

lemma no_string_truthy: "js_String v = None \<Longrightarrow> js_truthy v"
  by (cases v) simp_all

lemma edit_route_invalid:
  "js_truthy (get_prop data ''_id'') \<Longrightarrow> js_String (get_prop data ''_id'') = Some s \<Longrightarrow>
   \<not> ObjectId_isValid s \<Longrightarrow>
     edit_route w (Some data) = (Response 500 (JError ''Server error''), w)"
  by (simp add: edit_route_def edit_invalid)

lemma edit_route_no_string:
  "js_String (get_prop data ''_id'') = None \<Longrightarrow>
     edit_route w (Some data) = (Response 500 (JError ''Server error''), w)"
  by (simp add: edit_route_def edit_no_string no_string_truthy)

lemma delete_route_invalid:
  "js_truthy (get_prop data ''id'') \<Longrightarrow> js_String (get_prop data ''id'') = Some s \<Longrightarrow>
   \<not> ObjectId_isValid s \<Longrightarrow>
     delete_route w (Some data) = (Response 500 (JError ''Internal server error''), w)"
  by (simp add: delete_route_def remove_invalid)

lemma delete_route_no_string:
  "js_String (get_prop data ''id'') = None \<Longrightarrow>
     delete_route w (Some data) = (Response 500 (JError ''Internal server error''), w)"
  by (simp add: delete_route_def remove_no_string no_string_truthy)

text \<open>
  C4, as the code has it: a request to \<^verbatim>\<open>PUT /api/edit\<close> or \<^verbatim>\<open>DELETE /api/delete\<close>
  whose identifier is truthy but does not spell a valid \<^verbatim>\<open>ObjectId\<close> fails with the
  error \<^verbatim>\<open>Invalid id\<close> (with a \<^verbatim>\<open>TypeError\<close>, when the identifier has no string)
  before any call to the store, and is answered 500; a request whose identifier is
  missing or falsy (the empty string, zero, \<^verbatim>\<open>null\<close>, \<^verbatim>\<open>false\<close>), or that has no
  body, is answered 400, the store untouched as well.
\<close>

theorem malformed_identifier_responses:
  "(js_truthy (get_prop data ''_id'') \<and> js_String (get_prop data ''_id'') = Some s \<and>
    \<not> ObjectId_isValid s \<longrightarrow>
      edit w data = (Inl (Error ''Invalid id''), w) \<and>
      edit_route w (Some data) = (Response 500 (JError ''Server error''), w)) \<and>
   (js_String (get_prop data ''_id'') = None \<longrightarrow>
      edit w data = (Inl TypeError, w) \<and>
      edit_route w (Some data) = (Response 500 (JError ''Server error''), w)) \<and>
   (\<not> js_truthy (get_prop data ''_id'') \<longrightarrow>
      edit_route w (Some data) = (Response 400 (JError ''Missing id in body''), w)) \<and>
   (map_of data ''_id'' = None \<longrightarrow> \<not> js_truthy (get_prop data ''_id'')) \<and>
   edit_route w None = (Response 400 (JError ''Missing id in body''), w) \<and>
   (js_truthy (get_prop data ''id'') \<and> js_String (get_prop data ''id'') = Some t \<and>
    \<not> ObjectId_isValid t \<longrightarrow>
      remove w data = (Inl (Error ''Invalid id''), w) \<and>
      delete_route w (Some data) = (Response 500 (JError ''Internal server error''), w)) \<and>
   (js_String (get_prop data ''id'') = None \<longrightarrow>
      remove w data = (Inl TypeError, w) \<and>
      delete_route w (Some data) = (Response 500 (JError ''Internal server error''), w)) \<and>
   (\<not> js_truthy (get_prop data ''id'') \<longrightarrow>
      delete_route w (Some data) = (Response 400 (JError ''Missing id in body''), w)) \<and>
   (map_of data ''id'' = None \<longrightarrow> \<not> js_truthy (get_prop data ''id'')) \<and>
   delete_route w None = (Response 400 (JError ''Missing id in body''), w)"
proof -
  have a: "\<not> js_truthy (get_prop data k) \<Longrightarrow>
      edit_route w (Some data) = (Response 400 (JError ''Missing id in body''), w)"
    if "k = ''_id''" for k
    using that by (simp add: edit_route_def)
  have b: "\<not> js_truthy (get_prop data k) \<Longrightarrow>
      delete_route w (Some data) = (Response 400 (JError ''Missing id in body''), w)"
    if "k = ''id''" for k
    using that by (simp add: delete_route_def)
  have c: "edit_route w None = (Response 400 (JError ''Missing id in body''), w)"
    "delete_route w None = (Response 400 (JError ''Missing id in body''), w)"
    by (simp_all add: edit_route_def delete_route_def)
  have d: "map_of data k = None \<Longrightarrow> \<not> js_truthy (get_prop data k)" for k
    by (simp add: get_prop_absent)
  show ?thesis
    using edit_invalid [of data s w] edit_route_invalid [of data s w]
      edit_no_string [of data w] edit_route_no_string [of data w]
      remove_invalid [of data t w] delete_route_invalid [of data t w]
      remove_no_string [of data w] delete_route_no_string [of data w]
      a [OF refl] b [OF refl] c d [of "''_id''"] d [of "''id''"]
    by (intro conjI impI) (elim conjE, assumption | assumption)+
qed

theorem malformed_identifier_responses_witness:
  "edit bar [(''_id'', VStr ''bad'')] = (Inl (Error ''Invalid id''), bar) \<and>
   edit_route bar (Some [(''_id'', VStr ''bad'')]) =
     (Response 500 (JError ''Server error''), bar) \<and>
   edit_route bar (Some [(''_id'', VObj [(''toString'', VNull)])]) =
     (Response 500 (JError ''Server error''), bar) \<and>
   edit_route bar (Some [(''name'', VStr ''X'')]) =
     (Response 400 (JError ''Missing id in body''), bar) \<and>
   \<not> js_truthy (get_prop [(''name'', VStr ''X'')] ''_id'') \<and>
   remove bar [(''id'', VStr ''bad'')] = (Inl (Error ''Invalid id''), bar) \<and>
   delete_route bar (Some [(''id'', VStr ''bad'')]) =
     (Response 500 (JError ''Internal server error''), bar) \<and>
   delete_route bar (Some [(''id'', VObj [(''toString'', VNull)])]) =
     (Response 500 (JError ''Internal server error''), bar) \<and>
   delete_route bar (Some [(''name'', VStr ''X'')]) =
     (Response 400 (JError ''Missing id in body''), bar) \<and>
   \<not> js_truthy (get_prop [(''name'', VStr ''X'')] ''id'')"
proof -
  note t = malformed_identifier_responses
  have t1: "js_truthy (get_prop [(''_id'', VStr ''bad'')] ''_id'') \<and>
      js_String (get_prop [(''_id'', VStr ''bad'')] ''_id'') = Some ''bad'' \<and>
      \<not> ObjectId_isValid ''bad''"
    by (simp add: get_prop_def ObjectId_isValid_def)
  have t2: "\<not> js_truthy (get_prop [(''name'', VStr ''X'')] ''_id'')"
    by (simp add: get_prop_def)
  have t3: "js_truthy (get_prop [(''id'', VStr ''bad'')] ''id'') \<and>
      js_String (get_prop [(''id'', VStr ''bad'')] ''id'') = Some ''bad'' \<and>
      \<not> ObjectId_isValid ''bad''"
    by (simp add: get_prop_def ObjectId_isValid_def)
  have t4: "\<not> js_truthy (get_prop [(''name'', VStr ''X'')] ''id'')"
    by (simp add: get_prop_def)
  have t5: "js_String (get_prop [(''_id'', VObj [(''toString'', VNull)])] ''_id'') = None"
    by (simp add: get_prop_def)
  have t6: "js_String (get_prop [(''id'', VObj [(''toString'', VNull)])] ''id'') = None"
    by (simp add: get_prop_def)
  have t7: "map_of [(''name'', VStr ''X'')] ''_id'' = None"
    "map_of [(''name'', VStr ''X'')] ''id'' = None"
    by simp_all
  note c2 = conjunct2
  note e = t [THEN conjunct1, rule_format, OF t1]
  note n = t [THEN c2, THEN conjunct1, rule_format, OF t5, THEN c2]
  note m = t [THEN c2, THEN c2, THEN conjunct1, rule_format, OF t2]
  note a = t [THEN c2, THEN c2, THEN c2, THEN conjunct1, rule_format, OF t7(1)]
  note r = t [THEN c2, THEN c2, THEN c2, THEN c2, THEN c2, THEN conjunct1, rule_format, OF t3]
  note o = t [THEN c2, THEN c2, THEN c2, THEN c2, THEN c2, THEN c2, THEN conjunct1,
    rule_format, OF t6, THEN c2]
  note d = t [THEN c2, THEN c2, THEN c2, THEN c2, THEN c2, THEN c2, THEN c2, THEN conjunct1,
    rule_format, OF t4]
  note b = t [THEN c2, THEN c2, THEN c2, THEN c2, THEN c2, THEN c2, THEN c2, THEN c2,
    THEN conjunct1, rule_format, OF t7(2)]
  show ?thesis
    using e [of bar] n [of bar] m [of bar] a r [of bar] o [of bar] d [of bar] b
    by (simp only: simp_thms)
qed

text \<open>
  The empty string as identifier: the field is present and is not a valid identifier,
  and the answer is 400, for the update and for the deletion.
\<close>

theorem empty_identifier_gets_400:
  "edit_route bar (Some [(''_id'', VStr [])]) =
     (Response 400 (JError ''Missing id in body''), bar) \<and>
   map_of [(''_id'', VStr [])] ''_id'' = Some (VStr []) \<and>
   js_String (get_prop [(''_id'', VStr [])] ''_id'') = Some [] \<and>
   \<not> ObjectId_isValid [] \<and>
   delete_route bar (Some [(''id'', VStr [])]) =
     (Response 400 (JError ''Missing id in body''), bar) \<and>
   map_of [(''id'', VStr [])] ''id'' = Some (VStr [])"
  by (simp add: edit_route_def delete_route_def get_prop_def ObjectId_isValid_def)

section \<open>Creating items\<close>

lemma get_prop_put: "get_prop (put k v ob) k' = (if k' = k then v else get_prop ob k')"
  by (induction ob) (auto simp: get_prop_def)

lemma add_route_empty:
  "b = None \<or> b = Some [] \<Longrightarrow> add_route w g b = (Response 400 (JError ''Missing body''), w)"
  by (auto simp: add_route_def)

lemma add_route_accepted:
  "data \<noteq> [] \<Longrightarrow> add w g data = (Inr i, w') \<Longrightarrow>
     add_route w g (Some data) = (Response 201 (JInserted i), w')"
  by (simp add: add_route_def)

lemma add_route_refused:
  "data \<noteq> [] \<Longrightarrow> add w g data = (Inl e, w') \<Longrightarrow>
     add_route w g (Some data) = (Response 500 (JError ''Server error''), w')"
  by (simp add: add_route_def)

lemma add_calls: "calls (snd (add w g data)) = calls w @ [InsertOne data]"
  by (simp add: add_def collection_insertOne_def)

lemma add_route_calls:
  "data \<noteq> [] \<Longrightarrow> calls (snd (add_route w g (Some data))) = calls w @ [InsertOne data]"
  using add_calls [of w g data]
  by (cases "add w g data") (auto simp: add_route_def split: sum.splits)

lemma add_refused:
  "add w g data = (Inl e, w') \<Longrightarrow> docs w' = docs w"
  by (auto simp: add_def collection_insertOne_def split: if_splits)

lemma add_duplicate:
  "get_prop (with_id g data) ''_id'' \<in> set (ids (docs w)) \<Longrightarrow> \<exists>e w'. add w g data = (Inl e, w')"
  by (simp add: add_def collection_insertOne_def)

lemma add_route_duplicate:
  "data \<noteq> [] \<Longrightarrow> get_prop (with_id g data) ''_id'' \<in> set (ids (docs w)) \<Longrightarrow>
     fst (add_route w g (Some data)) = Response 500 (JError ''Server error'')"
  using add_duplicate [of g data w] by (auto simp: add_route_refused)

lemma add_result:
  "add w g data = (Inr i, w') \<Longrightarrow>
     docs w' = docs w @ [with_id g data] \<and> i = get_prop (with_id g data) ''_id'' \<and>
     i \<notin> set (ids (docs w)) \<and> calls w' = calls w @ [InsertOne data]"
  by (auto simp: add_def collection_insertOne_def split: if_splits)

lemma with_id_generated:
  "get_prop data ''_id'' = VUndef \<or> get_prop data ''_id'' = VNull \<Longrightarrow>
     get_prop (with_id g data) ''_id'' = ObjectId g \<and>
     (\<forall>k. k \<noteq> ''_id'' \<longrightarrow> get_prop (with_id g data) k = get_prop data k)"
  by (auto simp: with_id_def get_prop_put)

lemma with_id_kept:
  "get_prop data ''_id'' \<noteq> VUndef \<Longrightarrow> get_prop data ''_id'' \<noteq> VNull \<Longrightarrow>
     with_id g data = data"
  by (simp add: with_id_def)

text \<open>
  C5, as the code has it: \<^verbatim>\<open>POST /api/add\<close> with an empty or missing body is
  answered 400 and does not touch the store; a non-empty body is handed to
  \<^verbatim>\<open>insertOne\<close> as it is, in one call. When \<^verbatim>\<open>insertOne\<close> succeeds, the document
  is inserted and the answer is 201 with the identifier of the inserted document; when
  it fails, the answer is 500 and nothing is inserted; and it fails whenever a stored
  document already has the identifier of the new one.
\<close>

theorem add_route_responses:
  "(b = None \<or> b = Some [] \<longrightarrow>
      add_route w g b = (Response 400 (JError ''Missing body''), w)) \<and>
   (data \<noteq> [] \<longrightarrow>
      calls (snd (add_route w g (Some data))) = calls w @ [InsertOne data]) \<and>
   (data \<noteq> [] \<and> add w g data = (Inr i, w') \<longrightarrow>
      add_route w g (Some data) = (Response 201 (JInserted i), w') \<and>
      docs w' = docs w @ [with_id g data] \<and> get_prop (with_id g data) ''_id'' = i) \<and>
   (data \<noteq> [] \<and> add w g data = (Inl e, w'') \<longrightarrow>
      add_route w g (Some data) = (Response 500 (JError ''Server error''), w'') \<and>
      docs w'' = docs w) \<and>
   (data \<noteq> [] \<and> get_prop (with_id g data) ''_id'' \<in> set (ids (docs w)) \<longrightarrow>
      fst (add_route w g (Some data)) = Response 500 (JError ''Server error''))"
proof (intro conjI impI)
  assume "b = None \<or> b = Some []"
  then show "add_route w g b = (Response 400 (JError ''Missing body''), w)"
    by (rule add_route_empty)
next
  assume "data \<noteq> []"
  then show "calls (snd (add_route w g (Some data))) = calls w @ [InsertOne data]"
    by (rule add_route_calls)
next
  assume a: "data \<noteq> [] \<and> add w g data = (Inr i, w')"
  then show "add_route w g (Some data) = (Response 201 (JInserted i), w')"
    by (simp add: add_route_accepted)
  from a add_result [of w g data i w'] show "docs w' = docs w @ [with_id g data]"
    and "get_prop (with_id g data) ''_id'' = i"
    by simp_all
next
  assume a: "data \<noteq> [] \<and> add w g data = (Inl e, w'')"
  then show "add_route w g (Some data) = (Response 500 (JError ''Server error''), w'')"
    by (simp add: add_route_refused)
  from a add_refused [of w g data e w''] show "docs w'' = docs w" by simp
next
  assume "data \<noteq> [] \<and> get_prop (with_id g data) ''_id'' \<in> set (ids (docs w))"
  then show "fst (add_route w g (Some data)) = Response 500 (JError ''Server error'')"
    by (simp add: add_route_duplicate)
qed

theorem add_route_responses_witness:
  "add_route bar ''65a0000000000000000000aa'' (Some []) =
     (Response 400 (JError ''Missing body''), bar) \<and>
   calls (snd (add_route bar ''65a0000000000000000000aa''
       (Some [(''name'', VStr ''Daiquiri'')]))) =
     calls bar @ [InsertOne [(''name'', VStr ''Daiquiri'')]] \<and>
   add_route bar ''65a0000000000000000000aa'' (Some [(''name'', VStr ''Daiquiri'')]) =
     (Response 201 (JInserted (VOid ''65a0000000000000000000aa'')),
      bar\<lparr>docs := docs bar @
              [[(''name'', VStr ''Daiquiri''), (''_id'', VOid ''65a0000000000000000000aa'')]],
          calls := calls bar @ [InsertOne [(''name'', VStr ''Daiquiri'')]]\<rparr>) \<and>
   add_route bar ''65a0000000000000000000aa'' (Some [(''_bsontype'', VStr ''x'')]) =
     (Response 500 (JError ''Server error''),
      bar\<lparr>calls := calls bar @ [InsertOne [(''_bsontype'', VStr ''x'')]]\<rparr>) \<and>
   fst (add_route (closed_bar\<lparr>docs := [house_mojito]\<rparr>) ''65a0000000000000000000aa''
       (Some house_mojito)) = Response 500 (JError ''Server error'')"
proof -
  note t = add_route_responses
  note c2 = conjunct2
  have h1: "Some [] = None \<or> Some [] = Some ([] :: obj)" by simp
  have h2: "[(''name'', VStr ''Daiquiri'')] \<noteq> ([] :: obj)" by simp
  have h3: "[(''name'', VStr ''Daiquiri'')] \<noteq> [] \<and>
      add bar ''65a0000000000000000000aa'' [(''name'', VStr ''Daiquiri'')] =
        (Inr (VOid ''65a0000000000000000000aa''),
         bar\<lparr>docs := docs bar @
              [[(''name'', VStr ''Daiquiri''), (''_id'', VOid ''65a0000000000000000000aa'')]],
          calls := calls bar @ [InsertOne [(''name'', VStr ''Daiquiri'')]]\<rparr>)"
    by (simp add: add_def collection_insertOne_def with_id_def get_prop_def ObjectId_def
        hex_lower_def bar_def ids_def mojito_def negroni_def plain_document_def)
  have h4: "[(''_bsontype'', VStr ''x'')] \<noteq> [] \<and>
      add bar ''65a0000000000000000000aa'' [(''_bsontype'', VStr ''x'')] =
        (Inl (MongoError ''document not admitted''),
         bar\<lparr>calls := calls bar @ [InsertOne [(''_bsontype'', VStr ''x'')]]\<rparr>)"
    by (simp add: add_def collection_insertOne_def with_id_def get_prop_def put.simps bar_def
        plain_document_def)
  have h5: "house_mojito \<noteq> [] \<and>
      get_prop (with_id ''65a0000000000000000000aa'' house_mojito) ''_id''
        \<in> set (ids (docs (closed_bar\<lparr>docs := [house_mojito]\<rparr>)))"
    by (simp add: with_id_def get_prop_def house_mojito_def ids_def)
  note a = t [THEN conjunct1, rule_format, OF h1]
  note b = t [THEN c2, THEN conjunct1, rule_format, OF h2]
  note c = t [THEN c2, THEN c2, THEN conjunct1, rule_format, OF h3, THEN conjunct1]
  note d = t [THEN c2, THEN c2, THEN c2, THEN conjunct1, rule_format, OF h4, THEN conjunct1]
  note e = t [THEN c2, THEN c2, THEN c2, THEN c2, rule_format, OF h5]
  from a [of bar "''65a0000000000000000000aa''"] b [of bar "''65a0000000000000000000aa''"] c d e
  show ?thesis by (intro conjI)
qed

text \<open>
  A body that names the identifier of a stored document: the first request stores it
  under the identifier the client chose, the second is answered 500 and inserts nothing.
\<close>

theorem second_add_of_same_id_gets_500:
  "house_mojito \<noteq> [] \<and>
   fst (add_route closed_bar ''65a0000000000000000000aa'' (Some house_mojito)) =
     Response 201 (JInserted (VStr ''house'')) \<and>
   fst (add_route (snd (add_route closed_bar ''65a0000000000000000000aa'' (Some house_mojito)))
          ''65a0000000000000000000ab'' (Some house_mojito)) =
     Response 500 (JError ''Server error'') \<and>
   docs (snd (add_route
          (snd (add_route closed_bar ''65a0000000000000000000aa'' (Some house_mojito)))
          ''65a0000000000000000000ab'' (Some house_mojito))) = [house_mojito]"
  by (simp add: add_route_def add_def collection_insertOne_def with_id_def get_prop_def
      house_mojito_def closed_bar_def ids_def plain_document_def)

text \<open>
  C6, as the code has it: the document stored by \<^verbatim>\<open>add\<close> is the payload, and its
  identifier is the one \<^verbatim>\<open>insertOne\<close> returns, which no stored document had. When
  the payload has no \<^verbatim>\<open>_id\<close> (or \<^verbatim>\<open>null\<close>), the identifier is the one generated
  for the call, and the other fields are the payload's; when the payload has an
  \<^verbatim>\<open>_id\<close>, the document is stored with that identifier.
\<close>

theorem identifier_of_new_item:
  "(add w g data = (Inr i, w') \<longrightarrow>
      docs w' = docs w @ [with_id g data] \<and> get_prop (with_id g data) ''_id'' = i \<and>
      i \<notin> set (ids (docs w)) \<and> calls w' = calls w @ [InsertOne data]) \<and>
   (get_prop data ''_id'' = VUndef \<or> get_prop data ''_id'' = VNull \<longrightarrow>
      get_prop (with_id g data) ''_id'' = ObjectId g \<and>
      (\<forall>k. k \<noteq> ''_id'' \<longrightarrow> get_prop (with_id g data) k = get_prop data k)) \<and>
   (get_prop data ''_id'' \<noteq> VUndef \<and> get_prop data ''_id'' \<noteq> VNull \<longrightarrow>
      with_id g data = data)"
  using add_result [of w g data i w'] with_id_generated [of data g] with_id_kept [of data g]
  by blast

theorem identifier_of_new_item_witness:
  "add bar ''65a0000000000000000000aa'' [(''name'', VStr ''Daiquiri'')] =
     (Inr (VOid ''65a0000000000000000000aa''),
      bar\<lparr>docs := docs bar @
              [[(''name'', VStr ''Daiquiri''), (''_id'', VOid ''65a0000000000000000000aa'')]],
          calls := calls bar @ [InsertOne [(''name'', VStr ''Daiquiri'')]]\<rparr>) \<and>
   VOid ''65a0000000000000000000aa'' \<notin> set (ids (docs bar)) \<and>
   get_prop (with_id ''65a0000000000000000000aa'' [(''name'', VStr ''Daiquiri'')]) ''_id'' =
     ObjectId ''65a0000000000000000000aa'' \<and>
   get_prop (with_id ''65a0000000000000000000aa'' [(''name'', VStr ''Daiquiri'')]) ''name'' =
     VStr ''Daiquiri'' \<and>
   with_id ''65a0000000000000000000aa'' house_mojito = house_mojito"
proof -
  note t = identifier_of_new_item
  have h: "get_prop [(''name'', VStr ''Daiquiri'')] ''_id'' = VUndef \<or>
      get_prop [(''name'', VStr ''Daiquiri'')] ''_id'' = VNull"
    by (simp add: get_prop_def)
  note b = t [THEN conjunct2, THEN conjunct1, rule_format, OF h]
  have n: "''name'' \<noteq> ''_id''" by simp
  have g: "get_prop [(''name'', VStr ''Daiquiri'')] ''name'' = VStr ''Daiquiri''"
    by (simp add: get_prop_def)
  have a: "add bar ''65a0000000000000000000aa'' [(''name'', VStr ''Daiquiri'')] =
     (Inr (VOid ''65a0000000000000000000aa''),
      bar\<lparr>docs := docs bar @
              [[(''name'', VStr ''Daiquiri''), (''_id'', VOid ''65a0000000000000000000aa'')]],
          calls := calls bar @ [InsertOne [(''name'', VStr ''Daiquiri'')]]\<rparr>)"
    by (simp add: add_def collection_insertOne_def with_id_def get_prop_def ObjectId_def
        hex_lower_def bar_def ids_def mojito_def negroni_def plain_document_def)
  have fresh: "VOid ''65a0000000000000000000aa'' \<notin> set (ids (docs bar))"
    using t [THEN conjunct1, rule_format, OF a] by (elim conjE)
  have k: "get_prop house_mojito ''_id'' \<noteq> VUndef \<and> get_prop house_mojito ''_id'' \<noteq> VNull"
    by (simp add: house_mojito_def get_prop_def)
  note c = t [THEN conjunct2, THEN conjunct2, rule_format, OF k]
  show ?thesis
    using a fresh b [of "''65a0000000000000000000aa''", THEN conjunct1]
      b [of "''65a0000000000000000000aa''", THEN conjunct2, rule_format, OF n] g
      c [of "''65a0000000000000000000aa''"]
    by (simp only: simp_thms)
qed

text \<open>
  A payload with an \<^verbatim>\<open>_id\<close> of its own: the identifier stored and returned is the
  client's string, not the identifier generated for the call.
\<close>

theorem add_keeps_identifier_of_payload:
  "add closed_bar ''65a0000000000000000000aa'' house_mojito =
     (Inr (VStr ''house''),
      closed_bar\<lparr>docs := [house_mojito], calls := [InsertOne house_mojito]\<rparr>) \<and>
   get_prop house_mojito ''_id'' = VStr ''house'' \<and>
   VStr ''house'' \<noteq> ObjectId ''65a0000000000000000000aa''"
  by (simp add: add_def collection_insertOne_def with_id_def get_prop_def
      house_mojito_def closed_bar_def ids_def ObjectId_def plain_document_def)

section \<open>Queries by identifier\<close>

lemma selector_by_id:
  "selector w [(''_id'', VOid h)] = Inr (\<lambda>d. in_match (map_of d ''_id'') [VOid h])"
  by (simp add: selector_def read_cond_def split: option.split)

lemma id_match:
  "\<not> is_array (get_prop d ''_id'') \<Longrightarrow>
     in_match (map_of d ''_id'') [VOid h] = (get_prop d ''_id'' = VOid h)"
proof (cases "map_of d ''_id''")
  case None
  then show ?thesis by (simp add: in_match_def get_prop_def)
next
  case (Some v)
  assume "\<not> is_array (get_prop d ''_id'')"
  with Some have "\<not> is_array v" by (simp add: get_prop_def)
  with Some show ?thesis by (cases v) (simp_all add: in_match_def get_prop_def)
qed

lemma wf_store_match:
  assumes "wf_store w" and "d \<in> set (docs w)"
  shows "in_match (map_of d ''_id'') [VOid h] = (get_prop d ''_id'' = VOid h)"
proof -
  from assms have "\<not> is_array (get_prop d ''_id'')"
    by (simp add: wf_store_def list_all_iff)
  then show ?thesis by (rule id_match)
qed

lemma valid_truthy: "js_String v = Some s \<Longrightarrow> ObjectId_isValid s \<Longrightarrow> js_truthy v"
  by (cases v) (auto simp: ObjectId_isValid_def split: if_splits)

lemma wf_store_closed_bar: "wf_store closed_bar"
  by (simp add: wf_store_def closed_bar_def ids_def)

lemma wf_store_bar: "wf_store bar"
  by (simp add: wf_store_def bar_def ids_def mojito_def negroni_def get_prop_def)

section \<open>Deleting items\<close>

lemma delete_first_filter:
  "distinct (map f ds) \<Longrightarrow> \<forall>d \<in> set ds. P d = (f d = a) \<Longrightarrow>
     delete_first P ds = filter (\<lambda>d. f d \<noteq> a) ds"
proof (induction ds)
  case Nil
  then show ?case by simp
next
  case (Cons x xs)
  show ?case
  proof (cases "P x")
    case True
    with Cons.prems have "f x = a" and "\<forall>y \<in> set xs. f y \<noteq> a"
      by (auto simp: image_iff)
    then have "filter (\<lambda>d. f d \<noteq> a) xs = xs" by (simp add: filter_id_conv)
    with True \<open>f x = a\<close> show ?thesis by simp
  next
    case False
    with Cons show ?thesis by simp
  qed
qed

lemma length_filter_other:
  "distinct (map f ds) \<Longrightarrow> a \<in> f ` set ds \<Longrightarrow>
     length (filter (\<lambda>d. f d \<noteq> a) ds) + 1 = length ds"
proof (induction ds)
  case Nil
  then show ?case by simp
next
  case (Cons x xs)
  show ?case
  proof (cases "f x = a")
    case True
    with Cons.prems have "\<forall>y \<in> set xs. f y \<noteq> a" by (auto simp: image_iff)
    then have "filter (\<lambda>d. f d \<noteq> a) xs = xs" by (simp add: filter_id_conv)
    with True show ?thesis by simp
  next
    case False
    with Cons show ?thesis by auto
  qed
qed

lemma delete_first_none: "\<forall>d \<in> set ds. \<not> P d \<Longrightarrow> delete_first P ds = ds"
  by (induction ds) auto

lemma remove_valid:
  assumes "js_String (get_prop data ''id'') = Some s" and "ObjectId_isValid s"
  shows "remove w data =
     (Inr (if list_ex (\<lambda>d. in_match (map_of d ''_id'') [ObjectId s]) (docs w) then 1 else 0),
      w\<lparr>docs := delete_first (\<lambda>d. in_match (map_of d ''_id'') [ObjectId s]) (docs w),
        calls := calls w @ [DeleteOne [(''_id'', ObjectId s)]]\<rparr>)"
  using assms
  by (simp add: remove_def collection_deleteOne_def ObjectId_def selector_by_id)

lemma remove_present:
  assumes wf: "wf_store w"
    and str: "js_String (get_prop data ''id'') = Some s"
    and valid: "ObjectId_isValid s"
    and stored: "ObjectId s \<in> set (ids (docs w))"
  shows "fst (remove w data) = Inr 1"
    and "docs (snd (remove w data)) =
      filter (\<lambda>d. get_prop d ''_id'' \<noteq> ObjectId s) (docs w)"
proof -
  obtain h where h: "ObjectId s = VOid h"
    by (simp add: ObjectId_def)
  have m: "\<forall>d \<in> set (docs w).
      in_match (map_of d ''_id'') [VOid h] = (get_prop d ''_id'' = VOid h)"
    using wf by (simp add: wf_store_match)
  from stored h obtain d where "d \<in> set (docs w)" and "get_prop d ''_id'' = VOid h"
    by (auto simp: ids_def)
  with m have "list_ex (\<lambda>d. in_match (map_of d ''_id'') [VOid h]) (docs w)"
    by (auto simp: list_ex_iff)
  then show "fst (remove w data) = Inr 1"
    by (simp add: remove_valid [OF str valid] h)
  from wf have "distinct (map (\<lambda>d. get_prop d ''_id'') (docs w))"
    by (simp add: wf_store_def ids_def)
  from delete_first_filter [OF this m]
  show "docs (snd (remove w data)) =
      filter (\<lambda>d. get_prop d ''_id'' \<noteq> ObjectId s) (docs w)"
    by (simp add: remove_valid [OF str valid] h)
qed

lemma remove_absent:
  assumes wf: "wf_store w"
    and str: "js_String (get_prop data ''id'') = Some s"
    and valid: "ObjectId_isValid s"
    and absent: "ObjectId s \<notin> set (ids (docs w))"
  shows "fst (remove w data) = Inr 0" and "docs (snd (remove w data)) = docs w"
proof -
  obtain h where h: "ObjectId s = VOid h"
    by (simp add: ObjectId_def)
  have m: "\<forall>d \<in> set (docs w).
      in_match (map_of d ''_id'') [VOid h] = (get_prop d ''_id'' = VOid h)"
    using wf by (simp add: wf_store_match)
  with absent h have n: "\<forall>d \<in> set (docs w). \<not> in_match (map_of d ''_id'') [VOid h]"
    by (auto simp: ids_def image_iff)
  then show "fst (remove w data) = Inr 0"
    by (simp add: remove_valid [OF str valid] h list_ex_iff)
  from delete_first_none [OF n] show "docs (snd (remove w data)) = docs w"
    by (simp add: remove_valid [OF str valid] h)
qed

lemma remove_rejected:
  "js_String (get_prop data ''id'') = None \<or>
   (\<exists>s. js_String (get_prop data ''id'') = Some s \<and> \<not> ObjectId_isValid s) \<Longrightarrow>
     snd (remove w data) = w"
  by (auto simp: remove_def)

lemma wf_store_remove: "wf_store w \<Longrightarrow> wf_store (snd (remove w data))"
proof (cases "js_String (get_prop data ''id'')")
  case None
  assume "wf_store w"
  with None show ?thesis by (simp add: remove_rejected)
next
  case (Some s)
  assume wf: "wf_store w"
  show ?thesis
  proof (cases "ObjectId_isValid s")
    case False
    with Some wf show ?thesis by (simp add: remove_rejected)
  next
    case True
    show ?thesis
    proof (cases "ObjectId s \<in> set (ids (docs w))")
      case True
      from remove_present(2) [OF wf Some \<open>ObjectId_isValid s\<close> True] wf
      show ?thesis
        by (simp add: wf_store_def ids_def distinct_map_filter list_all_iff)
    next
      case False
      from remove_absent(2) [OF wf Some \<open>ObjectId_isValid s\<close> False] wf
      show ?thesis by (simp add: wf_store_def)
    qed
  qed
qed

text \<open>
  C7: on a store that holds a document with the identifier of the request (identifiers
  being unique), \<^verbatim>\<open>remove\<close> deletes one document, the one with that identifier, and
  returns the count 1; the same request again returns the count 0 and leaves the
  documents as the first call left them. The route answers 200 both times.
\<close>

theorem remove_twice:
  assumes "wf_store w"
    and "js_String (get_prop data ''id'') = Some s"
    and "ObjectId_isValid s"
    and "ObjectId s \<in> set (ids (docs w))"
  shows "fst (remove w data) = Inr 1 \<and>
     docs (snd (remove w data)) = filter (\<lambda>d. get_prop d ''_id'' \<noteq> ObjectId s) (docs w) \<and>
     length (docs (snd (remove w data))) + 1 = length (docs w) \<and>
     fst (remove (snd (remove w data)) data) = Inr 0 \<and>
     docs (snd (remove (snd (remove w data)) data)) = docs (snd (remove w data)) \<and>
     fst (delete_route w (Some data)) = Response 200 (JDeleted 1) \<and>
     fst (delete_route (snd (delete_route w (Some data))) (Some data)) =
       Response 200 (JDeleted 0) \<and>
     docs (snd (delete_route (snd (delete_route w (Some data))) (Some data))) =
       docs (snd (delete_route w (Some data)))"
proof -
  let ?w1 = "snd (remove w data)"
  note first = remove_present [OF assms]
  have d: "distinct (map (\<lambda>d. get_prop d ''_id'') (docs w))"
    using assms(1) by (simp add: wf_store_def ids_def)
  have len: "length (docs ?w1) + 1 = length (docs w)"
    using length_filter_other [OF d, of "ObjectId s"] assms(4) first(2) by (simp add: ids_def)
  have wf1: "wf_store ?w1" using assms(1) by (rule wf_store_remove)
  have gone: "ObjectId s \<notin> set (ids (docs ?w1))"
    by (auto simp: first(2) ids_def)
  note second = remove_absent [OF wf1 assms(2) assms(3) gone]
  have truthy: "js_truthy (get_prop data ''id'')"
    using assms(2) assms(3) by (rule valid_truthy)
  have r1: "delete_route w (Some data) = (Response 200 (JDeleted 1), ?w1)"
    using truthy first(1) by (cases "remove w data") (simp add: delete_route_def)
  have r2: "delete_route ?w1 (Some data) = (Response 200 (JDeleted 0), snd (remove ?w1 data))"
    using truthy second(1) by (cases "remove ?w1 data") (simp add: delete_route_def)
  show ?thesis
    using first len second by (simp add: r1 r2)
qed

theorem remove_twice_witness:
  "fst (remove bar [(''id'', VStr ''65A000000000000000000001'')]) = Inr 1 \<and>
   docs (snd (remove bar [(''id'', VStr ''65A000000000000000000001'')])) = [negroni] \<and>
   fst (remove (snd (remove bar [(''id'', VStr ''65A000000000000000000001'')]))
          [(''id'', VStr ''65A000000000000000000001'')]) = Inr 0 \<and>
   docs (snd (remove (snd (remove bar [(''id'', VStr ''65A000000000000000000001'')]))
          [(''id'', VStr ''65A000000000000000000001'')])) = [negroni]"
proof -
  have s: "js_String (get_prop [(''id'', VStr ''65A000000000000000000001'')] ''id'') =
      Some ''65A000000000000000000001''"
    by (simp add: get_prop_def)
  have v: "ObjectId_isValid ''65A000000000000000000001''"
    by (simp add: ObjectId_isValid_def is_hex_def)
  have o: "ObjectId ''65A000000000000000000001'' = VOid ''65a000000000000000000001''"
    by (simp add: ObjectId_def hex_lower_def)
  have e: "ObjectId ''65A000000000000000000001'' \<in> set (ids (docs bar))"
    unfolding o by (simp add: bar_def ids_def mojito_def get_prop_def)
  have f: "filter (\<lambda>d. get_prop d ''_id'' \<noteq> ObjectId ''65A000000000000000000001'')
      (docs bar) = [negroni]"
    unfolding o by (simp add: bar_def mojito_def negroni_def get_prop_def)
  show ?thesis
    using remove_twice [OF wf_store_bar s v e] by (simp only: f simp_thms)
qed

section \<open>Updating items\<close>

lemma map_of_put: "map_of (put k v ob) k' = (if k' = k then Some v else map_of ob k')"
  by (induction ob) auto

lemma map_of_apply_set:
  "map_of (apply_set flds d) k =
     (case map_of flds k of None \<Rightarrow> map_of d k | Some v \<Rightarrow> Some v)"
proof (induction flds)
  case Nil
  show ?case by (simp add: apply_set_def)
next
  case (Cons kv flds)
  have "apply_set (kv # flds) d = put (fst kv) (snd kv) (apply_set flds d)"
    by (simp add: apply_set_def)
  with Cons show ?case by (cases kv) (simp add: map_of_put)
qed

lemma map_of_delete_prop:
  "map_of (delete_prop ob k) k' = (if k' = k then None else map_of ob k')"
  by (induction ob) (auto simp: delete_prop_def)

lemma get_prop_merged:
  "get_prop (apply_set (delete_prop data ''_id'') d) k =
     (if k \<noteq> ''_id'' \<and> k \<in> fst ` set data then get_prop data k else get_prop d k)"
proof (cases "map_of data k")
  case None
  then have "k \<notin> fst ` set data" by (simp add: map_of_eq_None_iff)
  with None show ?thesis
    by (simp add: get_prop_def map_of_apply_set map_of_delete_prop)
next
  case (Some v)
  then have "k \<in> fst ` set data" by (metis map_of_eq_None_iff option.distinct(1))
  with Some show ?thesis
    by (simp add: get_prop_def map_of_apply_set map_of_delete_prop)
qed

lemma update_first_map:
  "distinct (map f ds) \<Longrightarrow> \<forall>d \<in> set ds. P d = (f d = a) \<Longrightarrow>
     update_first P g ds = map (\<lambda>d. if f d = a then g d else d) ds"
proof (induction ds)
  case Nil
  then show ?case by simp
next
  case (Cons x xs)
  show ?case
  proof (cases "P x")
    case True
    with Cons.prems have "f x = a" and "\<forall>y \<in> set xs. f y \<noteq> a"
      by (auto simp: image_iff)
    then have "map (\<lambda>d. if f d = a then g d else d) xs = xs" by (simp add: map_idI)
    with True \<open>f x = a\<close> show ?thesis by simp
  next
    case False
    with Cons show ?thesis by simp
  qed
qed

lemma update_first_none: "List.find P ds = None \<Longrightarrow> update_first P g ds = ds"
  by (induction ds) (auto split: if_splits)

lemma edit_calls:
  assumes "js_String (get_prop data ''_id'') = Some s" and "ObjectId_isValid s"
  shows "calls (snd (edit w data)) =
      calls w @ [UpdateOne [(''_id'', ObjectId s)] [(''$set'', VObj (delete_prop data ''_id''))]]"
  using assms
  by (auto simp: edit_def collection_updateOne_def ObjectId_def selector_by_id
      split: option.splits)

lemma edit_valid:
  assumes "js_String (get_prop data ''_id'') = Some s" and "ObjectId_isValid s"
    and "admits w (delete_prop data ''_id'')"
  shows "fst (edit w data) = Inr ()"
    and "docs (snd (edit w data)) =
      update_first (\<lambda>d. in_match (map_of d ''_id'') [ObjectId s])
        (apply_set (delete_prop data ''_id'')) (docs w)"
  using assms
  by (auto simp: edit_def collection_updateOne_def ObjectId_def selector_by_id changes_id_def
      map_of_delete_prop update_first_none split: option.splits)

lemma edit_not_admitted:
  assumes "js_String (get_prop data ''_id'') = Some s" and "ObjectId_isValid s"
    and "\<not> admits w (delete_prop data ''_id'')"
  shows "fst (edit w data) = Inl (MongoError ''document not admitted'')"
    and "docs (snd (edit w data)) = docs w"
  using assms
  by (auto simp: edit_def collection_updateOne_def ObjectId_def selector_by_id)

lemma edit_docs:
  assumes "wf_store w" and "js_String (get_prop data ''_id'') = Some s"
    and "ObjectId_isValid s" and "admits w (delete_prop data ''_id'')"
  shows "docs (snd (edit w data)) =
       map (\<lambda>d. if get_prop d ''_id'' = ObjectId s
                then apply_set (delete_prop data ''_id'') d else d) (docs w)"
proof -
  obtain h where h: "ObjectId s = VOid h" by (simp add: ObjectId_def)
  have m: "\<forall>d \<in> set (docs w).
      in_match (map_of d ''_id'') [ObjectId s] = (get_prop d ''_id'' = ObjectId s)"
    using assms(1) by (simp add: h wf_store_match)
  have d: "distinct (map (\<lambda>d. get_prop d ''_id'') (docs w))"
    using assms(1) by (simp add: wf_store_def ids_def)
  show ?thesis
    using update_first_map [OF d m]
    by (simp add: edit_valid(2) [OF assms(2) assms(3) assms(4)])
qed

lemma wf_store_ids:
  "wf_store w = (distinct (ids (docs w)) \<and> list_all (\<lambda>v. \<not> is_array v) (ids (docs w)))"
  by (simp add: wf_store_def ids_def list_all_iff)

lemma ids_merged:
  "ids (map (\<lambda>d. if get_prop d ''_id'' = a then apply_set (delete_prop data ''_id'') d else d)
      ds) = ids ds"
  by (simp add: ids_def get_prop_merged)

lemma edit_ids:
  assumes "wf_store w" and "js_String (get_prop data ''_id'') = Some s"
    and "ObjectId_isValid s"
  shows "ids (docs (snd (edit w data))) = ids (docs w)"
proof (cases "admits w (delete_prop data ''_id'')")
  case True
  show ?thesis by (simp only: edit_docs [OF assms True] ids_merged)
next
  case False
  show ?thesis by (simp only: edit_not_admitted(2) [OF assms(2) assms(3) False])
qed

lemma edit_route_accepted:
  assumes "js_String (get_prop data ''_id'') = Some s" and "ObjectId_isValid s"
    and "fst (edit w data) = Inr ()"
  shows "edit_route w (Some data) =
       (Response 200 (JMessage ''Item updated successfully''), snd (edit w data))"
proof -
  have "js_truthy (get_prop data ''_id'')"
    using assms(1) assms(2) by (rule valid_truthy)
  with assms(3) show ?thesis by (cases "edit w data") (simp add: edit_route_def)
qed

lemma edit_route_failed:
  assumes "js_String (get_prop data ''_id'') = Some s" and "ObjectId_isValid s"
    and "fst (edit w data) \<noteq> Inr ()"
  shows "edit_route w (Some data) = (Response 500 (JError ''Server error''), snd (edit w data))"
proof -
  have "js_truthy (get_prop data ''_id'')"
    using assms(1) assms(2) by (rule valid_truthy)
  with assms(3) show ?thesis
    by (cases "edit w data") (auto simp: edit_route_def split: sum.splits)
qed

text \<open>
  C3: for a payload whose \<^verbatim>\<open>_id\<close> spells a valid identifier, the update that
  \<^verbatim>\<open>edit\<close> sends to the store is \<^verbatim>\<open>$set\<close> of the payload without \<^verbatim>\<open>_id\<close>, and
  the identifiers of all stored documents stay as they were. When the store accepts the
  update (it admits the payload's other fields), the document with the identifier of the
  payload gets the payload's other fields and keeps its fields that the payload does not
  name, every other document is unchanged, and the route answers 200. When the store
  does not accept it, no document changes and the route answers 500.
\<close>

theorem edit_strips_identifier:
  assumes "wf_store w" and "js_String (get_prop data ''_id'') = Some s"
    and "ObjectId_isValid s"
  shows "calls (snd (edit w data)) =
       calls w @ [UpdateOne [(''_id'', ObjectId s)]
                    [(''$set'', VObj (delete_prop data ''_id''))]] \<and>
     map_of (delete_prop data ''_id'') ''_id'' = None \<and>
     ids (docs (snd (edit w data))) = ids (docs w) \<and>
     (fst (edit w data) = Inr ()) = admits w (delete_prop data ''_id'') \<and>
     (fst (edit w data) = Inr () \<longrightarrow>
        docs (snd (edit w data)) =
          map (\<lambda>d. if get_prop d ''_id'' = ObjectId s
                   then apply_set (delete_prop data ''_id'') d else d) (docs w) \<and>
        edit_route w (Some data) =
          (Response 200 (JMessage ''Item updated successfully''), snd (edit w data))) \<and>
     (\<forall>d k. get_prop (apply_set (delete_prop data ''_id'') d) k =
        (if k \<noteq> ''_id'' \<and> k \<in> fst ` set data then get_prop data k else get_prop d k)) \<and>
     (fst (edit w data) \<noteq> Inr () \<longrightarrow>
        docs (snd (edit w data)) = docs w \<and>
        edit_route w (Some data) =
          (Response 500 (JError ''Server error''), snd (edit w data)))"
proof -
  note c = edit_calls [OF assms(2) assms(3), of w]
  note i = edit_ids [OF assms]
  have acc: "(fst (edit w data) = Inr ()) = admits w (delete_prop data ''_id'')"
  proof (cases "admits w (delete_prop data ''_id'')")
    case True
    with edit_valid(1) [OF assms(2) assms(3) True] show ?thesis by simp
  next
    case False
    with edit_not_admitted(1) [OF assms(2) assms(3) False] show ?thesis by simp
  qed
  have ok: "docs (snd (edit w data)) =
          map (\<lambda>d. if get_prop d ''_id'' = ObjectId s
                   then apply_set (delete_prop data ''_id'') d else d) (docs w) \<and>
        edit_route w (Some data) =
          (Response 200 (JMessage ''Item updated successfully''), snd (edit w data))"
    if a: "fst (edit w data) = Inr ()"
  proof -
    from a acc have "admits w (delete_prop data ''_id'')" by simp
    from edit_docs [OF assms this] edit_route_accepted [OF assms(2) assms(3) a]
    show ?thesis by (intro conjI)
  qed
  have no: "docs (snd (edit w data)) = docs w \<and>
        edit_route w (Some data) =
          (Response 500 (JError ''Server error''), snd (edit w data))"
    if a: "fst (edit w data) \<noteq> Inr ()"
  proof -
    from a acc have "\<not> admits w (delete_prop data ''_id'')" by simp
    from edit_not_admitted(2) [OF assms(2) assms(3) this]
      edit_route_failed [OF assms(2) assms(3) a]
    show ?thesis by (intro conjI)
  qed
  have d: "map_of (delete_prop data ''_id'') ''_id'' = None"
    by (simp add: map_of_delete_prop)
  have m: "\<forall>d k. get_prop (apply_set (delete_prop data ''_id'') d) k =
        (if k \<noteq> ''_id'' \<and> k \<in> fst ` set data then get_prop data k else get_prop d k)"
    by (simp only: get_prop_merged simp_thms)
  from ok have ok': "fst (edit w data) = Inr () \<longrightarrow>
        docs (snd (edit w data)) =
          map (\<lambda>d. if get_prop d ''_id'' = ObjectId s
                   then apply_set (delete_prop data ''_id'') d else d) (docs w) \<and>
        edit_route w (Some data) =
          (Response 200 (JMessage ''Item updated successfully''), snd (edit w data))"
    by (rule impI)
  from no have no': "fst (edit w data) \<noteq> Inr () \<longrightarrow>
        docs (snd (edit w data)) = docs w \<and>
        edit_route w (Some data) =
          (Response 500 (JError ''Server error''), snd (edit w data))"
    by (rule impI)
  from c d i acc ok' m no' show ?thesis by (intro conjI)
qed

theorem edit_strips_identifier_witness:
  "fst (edit bar [(''_id'', VStr ''65A000000000000000000001''), (''base'', VStr ''white rum'')])
     = Inr () \<and>
   docs (snd (edit bar
       [(''_id'', VStr ''65A000000000000000000001''), (''base'', VStr ''white rum'')])) =
     [[(''_id'', VOid ''65a000000000000000000001''), (''name'', VStr ''Mojito''),
       (''base'', VStr ''white rum'')], negroni] \<and>
   ids (docs (snd (edit bar
       [(''_id'', VStr ''65A000000000000000000001''), (''base'', VStr ''white rum'')]))) =
     ids (docs bar) \<and>
   fst (edit_route bar
       (Some [(''_id'', VStr ''65A000000000000000000001''), (''base'', VStr ''white rum'')])) =
     Response 200 (JMessage ''Item updated successfully'') \<and>
   docs (snd (edit bar
       [(''_id'', VStr ''65A000000000000000000001''), (''_bsontype'', VStr ''x'')])) =
     docs bar \<and>
   fst (edit_route bar
       (Some [(''_id'', VStr ''65A000000000000000000001''), (''_bsontype'', VStr ''x'')])) =
     Response 500 (JError ''Server error'')"
proof -
  let ?data = "[(''_id'', VStr ''65A000000000000000000001''), (''base'', VStr ''white rum'')]"
  let ?odd = "[(''_id'', VStr ''65A000000000000000000001''), (''_bsontype'', VStr ''x'')]"
  note c2 = conjunct2
  have s: "js_String (get_prop ?data ''_id'') = Some ''65A000000000000000000001''"
    "js_String (get_prop ?odd ''_id'') = Some ''65A000000000000000000001''"
    by (simp_all add: get_prop_def)
  have v: "ObjectId_isValid ''65A000000000000000000001''"
    by (simp add: ObjectId_isValid_def is_hex_def)
  have o: "ObjectId ''65A000000000000000000001'' = VOid ''65a000000000000000000001''"
    by (simp add: ObjectId_def hex_lower_def)
  have p: "delete_prop ?data ''_id'' = [(''base'', VStr ''white rum'')]"
    "delete_prop ?odd ''_id'' = [(''_bsontype'', VStr ''x'')]"
    by (simp_all add: delete_prop_def)
  have f: "map (\<lambda>d. if get_prop d ''_id'' = ObjectId ''65A000000000000000000001''
                then apply_set (delete_prop ?data ''_id'') d else d) (docs bar) =
     [[(''_id'', VOid ''65a000000000000000000001''), (''name'', VStr ''Mojito''),
       (''base'', VStr ''white rum'')], negroni]"
    unfolding o p by (simp add: bar_def mojito_def negroni_def get_prop_def apply_set_def)
  have yes: "admits bar (delete_prop ?data ''_id'')"
    unfolding p by (simp add: bar_def plain_document_def)
  have not: "\<not> admits bar (delete_prop ?odd ''_id'')"
    unfolding p by (simp add: bar_def plain_document_def)
  note t = edit_strips_identifier [OF wf_store_bar s(1) v]
  note u = edit_strips_identifier [OF wf_store_bar s(2) v]
  have a: "fst (edit bar ?data) = Inr ()"
    using t [THEN c2, THEN c2, THEN c2, THEN conjunct1] yes by simp
  have r: "fst (edit bar ?odd) \<noteq> Inr ()"
    using u [THEN c2, THEN c2, THEN c2, THEN conjunct1] not by simp
  note b = t [THEN c2, THEN c2, THEN c2, THEN c2, THEN conjunct1, rule_format, OF a]
  note i = t [THEN c2, THEN c2, THEN conjunct1]
  note n = u [THEN c2, THEN c2, THEN c2, THEN c2, THEN c2, THEN c2, rule_format, OF r]
  have b1: "docs (snd (edit bar ?data)) =
     [[(''_id'', VOid ''65a000000000000000000001''), (''name'', VStr ''Mojito''),
       (''base'', VStr ''white rum'')], negroni]"
    using b [THEN conjunct1] by (simp only: f)
  have b2: "fst (edit_route bar (Some ?data)) =
     Response 200 (JMessage ''Item updated successfully'')"
    by (simp only: b [THEN c2] fst_conv)
  have n2: "fst (edit_route bar (Some ?odd)) = Response 500 (JError ''Server error'')"
    by (simp only: n [THEN c2] fst_conv)
  from a b1 i b2 n [THEN conjunct1] n2 show ?thesis by (intro conjI)
qed

lemma edit_rejected:
  "js_String (get_prop data ''_id'') = None \<or>
   (\<exists>s. js_String (get_prop data ''_id'') = Some s \<and> \<not> ObjectId_isValid s) \<Longrightarrow>
     snd (edit w data) = w"
  by (auto simp: edit_def)

lemma wf_store_edit: "wf_store w \<Longrightarrow> wf_store (snd (edit w data))"
proof (cases "js_String (get_prop data ''_id'')")
  case None
  assume "wf_store w"
  with None show ?thesis by (simp add: edit_rejected)
next
  case (Some s)
  assume wf: "wf_store w"
  show ?thesis
  proof (cases "ObjectId_isValid s")
    case False
    with Some wf show ?thesis by (simp add: edit_rejected)
  next
    case True
    from edit_ids [OF wf Some True] wf show ?thesis by (simp add: wf_store_ids)
  qed
qed

lemma wf_store_add: "wf_store w \<Longrightarrow> wf_store (snd (add w g data))"
  by (auto simp: add_def collection_insertOne_def wf_store_def ids_def)

section \<open>Filters\<close>















end
